theory Spec2Isabelle
  imports Complex_Main
begin

section \<open>Values of the host language\<close>

text \<open>
  Modelled from the spec: the \<open>Decimal\<close> class is an external library that the sources
  only call. The specification fixes the meaning of its methods: "all arithmetic is exact
  decimal". A \<open>Decimal\<close> is therefore an exact rational number; \<open>plus\<close>,
  \<open>minus\<close>, \<open>times\<close> and \<open>dividedBy\<close> are the field operations,
  \<open>greaterThanOrEqualTo\<close> is the order of the numbers, \<open>floor\<close> rounds toward negative
  infinity, and \<open>toDecimalPlaces(n, ROUND_DOWN)\<close> drops the digits after the \<open>n\<close>-th
  decimal place (rounding toward zero). An exact number has one zero and no infinity.
\<close>

type_synonym decimal = rat

definition floor_dec :: "decimal \<Rightarrow> decimal" where
  "floor_dec x = of_int \<lfloor>x\<rfloor>"

definition truncate_int :: "decimal \<Rightarrow> int" where
  "truncate_int x = (if 0 \<le> x then \<lfloor>x\<rfloor> else \<lceil>x\<rceil>)"

definition toDecimalPlaces_ROUND_DOWN :: "nat \<Rightarrow> decimal \<Rightarrow> decimal" where
  "toDecimalPlaces_ROUND_DOWN n x = of_int (truncate_int (x * 10 ^ n)) / 10 ^ n"

text \<open>
  A string of the host language is a list of code units. \<open>units\<close> gives the code units
  of a literal of ASCII characters.
\<close>

type_synonym js_string = "nat list"

definition units :: "string \<Rightarrow> js_string" where
  "units s = map of_char s"

text \<open>
  The relational operators of the language, applied to two objects, compare the primitive
  values that \<open>valueOf\<close> returns. For a \<open>Decimal\<close> that is a string, its decimal
  notation: a minus sign for a negative number, the digits of the integer part, and, when
  there is a fraction, a point and the digits of the fraction without trailing zeros. The
  fraction is written out to 20 digits at most, the precision the library computes with.
  (The library writes a number of magnitude \<open>10^21\<close> or more, or below \<open>10^-6\<close>, with an
  exponent, and its negative zero as \<open>-0\<close>; both are left out here.)
\<close>

function show_nat :: "nat \<Rightarrow> js_string" where
  "show_nat n = (if n < 10 then [48 + n] else show_nat (n div 10) @ [48 + n mod 10])"
  by pat_completeness auto
termination
  by (relation "measure (\<lambda>n. n)") auto

declare show_nat.simps [simp del]

fun frac_digits :: "nat \<Rightarrow> decimal \<Rightarrow> js_string" where
  "frac_digits 0 r = []"
| "frac_digits (Suc k) r =
     (if r = 0 then []
      else (let d = \<lfloor>r * 10\<rfloor> in (48 + nat d) # frac_digits k (r * 10 - of_int d)))"

definition valueOf :: "decimal \<Rightarrow> js_string" where
  "valueOf x =
     (let a = \<bar>x\<bar>;
          n = \<lfloor>a\<rfloor>;
          frac = frac_digits 20 (a - of_int n)
      in (if x < 0 then [45] else []) @ show_nat (nat n)
           @ (if frac = [] then [] else 46 # frac))"

text \<open>
  Two strings are compared code unit by code unit; a proper prefix is less. \<open>a >= b\<close>
  holds when \<open>a < b\<close> does not, and \<open>a <= b\<close> when \<open>b < a\<close> does not.
\<close>

fun string_less :: "js_string \<Rightarrow> js_string \<Rightarrow> bool" where
  "string_less [] [] = False"
| "string_less [] (y # ys) = True"
| "string_less (x # xs) [] = False"
| "string_less (x # xs) (y # ys) = (x < y \<or> (x = y \<and> string_less xs ys))"

definition js_ge :: "decimal \<Rightarrow> decimal \<Rightarrow> bool" where
  "js_ge a b = (\<not> string_less (valueOf a) (valueOf b))"

definition js_le :: "decimal \<Rightarrow> decimal \<Rightarrow> bool" where
  "js_le a b = (\<not> string_less (valueOf b) (valueOf a))"

text \<open>
  A property read from an object holds a boolean or nothing at all; \<open>truthy\<close> is the
  coercion applied by \<open>&&\<close> and \<open>if\<close>.
\<close>

datatype jsval = JSBool bool | JSUndefined

fun truthy :: "jsval \<Rightarrow> bool" where
  "truthy (JSBool b) = b"
| "truthy JSUndefined = False"

text \<open>Reading a property of \<open>undefined\<close>, or calling a method on it, raises.\<close>

datatype error = TypeError

section \<open>Derived values\<close>

text \<open>
  The intermediates are a property bag keyed by the name of a derived value. The callback
  \<open>calcFn\<close> receives the stat value, the extra and the intermediates; the breakpoint
  search calls it with two arguments only, so the third one is then \<open>undefined\<close>
  (\<open>None\<close>).
\<close>

type_synonym intermediates = "string \<rightharpoonup> decimal"

type_synonym calc = "decimal \<Rightarrow> decimal \<Rightarrow> intermediates option \<Rightarrow> error + decimal"

datatype derived_class =
  ClassDerivedValue | ClassNoBreakpointDerivedValue
  | ClassInvertedDerivedValue | ClassSpeedDerivedValue

record DerivedValue =
  class_of :: derived_class
  name :: string
  displayName :: string
  calcFn :: calc
  isPercent :: bool
  invertedBreakpoints :: bool

definition new_DerivedValue :: "string \<Rightarrow> string \<Rightarrow> calc \<Rightarrow> DerivedValue" where
  "new_DerivedValue n d f =
     \<lparr>class_of = ClassDerivedValue, name = n, displayName = d, calcFn = f,
      isPercent = True, invertedBreakpoints = False\<rparr>"

definition isntPercent :: "DerivedValue \<Rightarrow> DerivedValue" where
  "isntPercent v = v\<lparr>isPercent := False\<rparr>"

definition lesserBreakpointDirection :: "DerivedValue \<Rightarrow> decimal" where
  "lesserBreakpointDirection v = (if invertedBreakpoints v then 1 else - 1)"

definition greaterBreakpointDirection :: "DerivedValue \<Rightarrow> decimal" where
  "greaterBreakpointDirection v = (if invertedBreakpoints v then - 1 else 1)"

text \<open>
  The getter of the base class returns \<open>true\<close>. The override in
  \<open>NoBreakpointDerivedValue\<close> evaluates \<open>false\<close> as a statement and returns nothing.
\<close>

definition hasBreakpoints :: "DerivedValue \<Rightarrow> jsval" where
  "hasBreakpoints v =
     (case class_of v of
        ClassNoBreakpointDerivedValue \<Rightarrow> JSUndefined
      | _ \<Rightarrow> JSBool True)"

definition new_NoBreakpointDerivedValue :: "string \<Rightarrow> string \<Rightarrow> calc \<Rightarrow> DerivedValue" where
  "new_NoBreakpointDerivedValue n d f =
     (new_DerivedValue n d f)\<lparr>class_of := ClassNoBreakpointDerivedValue\<rparr>"

definition new_InvertedDerivedValue :: "string \<Rightarrow> string \<Rightarrow> calc \<Rightarrow> DerivedValue" where
  "new_InvertedDerivedValue n d f =
     (new_DerivedValue n d f)
       \<lparr>class_of := ClassInvertedDerivedValue, invertedBreakpoints := True\<rparr>"

definition speed_calcFn :: "decimal \<Rightarrow> calc" where
  "speed_calcFn timeConstant s extra inters =
     Inr (toDecimalPlaces_ROUND_DOWN 2
           (floor_dec ((1000 - extra) * timeConstant / 1000) / 1000))"

definition new_SpeedDerivedValue :: "string \<Rightarrow> decimal \<Rightarrow> DerivedValue" where
  "new_SpeedDerivedValue baseSpeed timeConstant =
     (new_DerivedValue baseSpeed baseSpeed (speed_calcFn timeConstant))
       \<lparr>class_of := ClassSpeedDerivedValue, isPercent := False,
        invertedBreakpoints := True\<rparr>"

section \<open>Stats\<close>

record Stat =
  statName :: string
  currentValue :: decimal
  statBase :: decimal
  deltaRate :: decimal
  derivedValueDefns :: "DerivedValue list"

definition new_Stat :: "string \<Rightarrow> decimal \<Rightarrow> decimal \<Rightarrow> DerivedValue list \<Rightarrow> Stat" where
  "new_Stat n b r defns =
     \<lparr>statName = n, currentValue = b, statBase = b, deltaRate = r,
      derivedValueDefns = defns\<rparr>"

definition levelMod :: decimal where
  "levelMod = 3300"

definition extra :: "Stat \<Rightarrow> decimal \<Rightarrow> decimal" where
  "extra st cv = (let delta = cv - statBase st
                  in floor_dec (deltaRate st * delta / levelMod))"

text \<open>
  One breakpoint loop: \<open>keep\<close> is the comparison with the real value, \<open>dir\<close> the
  direction of the derived value, \<open>bp\<close> the candidate and \<open>breaker\<close> the counter.
  The counter is only tested when the comparison holds. The two loops apply the operators
  \<open>>=\<close> and \<open><=\<close> to the recomputed value and the real value, two \<open>Decimal\<close>
  objects, where the test of the minimum calls \<open>greaterThanOrEqualTo\<close>.
\<close>

function breakpoint_loop ::
  "(decimal \<Rightarrow> error + decimal) \<Rightarrow> (decimal \<Rightarrow> bool) \<Rightarrow> decimal \<Rightarrow> decimal \<Rightarrow> nat
     \<Rightarrow> error + decimal" where
  "breakpoint_loop f keep dir bp breaker =
     (case f bp of
        Inl e \<Rightarrow> Inl e
      | Inr y \<Rightarrow>
          if keep y \<and> breaker < 10000
          then breakpoint_loop f keep dir (bp + dir) (breaker + 1)
          else Inr bp)"
  by pat_completeness auto
termination
  by (relation "measure (\<lambda>(f, keep, dir, bp, breaker). 10000 - breaker)") auto

declare breakpoint_loop.simps [simp del]

definition recalc :: "Stat \<Rightarrow> DerivedValue \<Rightarrow> decimal \<Rightarrow> error + decimal" where
  "recalc st v bp = calcFn v bp (extra st bp) None"

definition lesser_search :: "Stat \<Rightarrow> DerivedValue \<Rightarrow> decimal \<Rightarrow> error + decimal" where
  "lesser_search st v realValue =
     breakpoint_loop (recalc st v) (\<lambda>y. js_ge y realValue)
       (lesserBreakpointDirection v) (currentValue st) 0"

definition greater_search :: "Stat \<Rightarrow> DerivedValue \<Rightarrow> decimal \<Rightarrow> error + decimal" where
  "greater_search st v realValue =
     breakpoint_loop (recalc st v) (\<lambda>y. js_le y realValue)
       (greaterBreakpointDirection v) (currentValue st) 0"

text \<open>The objects handed to the view; an absent property is \<open>None\<close>.\<close>

record DerivedRow =
  row_name :: string
  row_value :: decimal
  row_hasBreakpoints :: jsval
  row_isPercent :: bool
  lesserBreakpoint :: "decimal option"
  greaterBreakpoint :: "decimal option"

definition derive_row :: "Stat \<Rightarrow> DerivedValue \<Rightarrow> decimal \<Rightarrow> error + DerivedRow" where
  "derive_row st v realValue =
     (let aboveMinimum = (currentValue st \<ge> statBase st) in
      if truthy (hasBreakpoints v) \<and> aboveMinimum then
        (case lesser_search st v realValue of
           Inl e \<Rightarrow> Inl e
         | Inr lb \<Rightarrow>
             (case greater_search st v realValue of
                Inl e \<Rightarrow> Inl e
              | Inr gb \<Rightarrow>
                  Inr \<lparr>row_name = displayName v, row_value = realValue,
                       row_hasBreakpoints = JSBool True, row_isPercent = isPercent v,
                       lesserBreakpoint = Some lb, greaterBreakpoint = Some gb\<rparr>))
      else
        Inr \<lparr>row_name = displayName v, row_value = realValue,
             row_hasBreakpoints = JSBool False, row_isPercent = isPercent v,
             lesserBreakpoint = None, greaterBreakpoint = None\<rparr>)"

text \<open>
  The \<open>map\<close> over the definitions, with the intermediates it mutates passed along:
  the callback computes the real value, stores it under the name of the derived value,
  and then builds the row.
\<close>

fun derivedValues_from ::
  "Stat \<Rightarrow> DerivedValue list \<Rightarrow> intermediates \<Rightarrow> error + DerivedRow list" where
  "derivedValues_from st [] inters = Inr []"
| "derivedValues_from st (v # vs) inters =
     (case calcFn v (currentValue st) (extra st (currentValue st)) (Some inters) of
        Inl e \<Rightarrow> Inl e
      | Inr realValue \<Rightarrow>
          (case derive_row st v realValue of
             Inl e \<Rightarrow> Inl e
           | Inr row \<Rightarrow>
               (case derivedValues_from st vs (inters(name v \<mapsto> realValue)) of
                  Inl e \<Rightarrow> Inl e
                | Inr rows \<Rightarrow> Inr (row # rows))))"

definition derivedValues :: "Stat \<Rightarrow> error + DerivedRow list" where
  "derivedValues st = derivedValues_from st (derivedValueDefns st) Map.empty"

section \<open>The stat block\<close>

text \<open>
  \<open>parseInt\<close> is a builtin of the language: it skips the leading white space and line
  terminators, reads an optional sign and an optional \<open>0x\<close> prefix, and then the longest
  run of digits of the radix. With no digit at all the result is \<open>NaN\<close>, here
  \<open>None\<close>; otherwise \<open>Some\<close> of the integer that was read.
\<close>

definition isWhiteSpace :: "nat \<Rightarrow> bool" where
  "isWhiteSpace u =
     (u \<in> set [0x09, 0x0A, 0x0B, 0x0C, 0x0D, 0x20, 0xA0, 0x1680, 0x2028, 0x2029, 0x202F,
                0x205F, 0x3000, 0xFEFF]
      \<or> (0x2000 \<le> u \<and> u \<le> 0x200A))"

definition digitValue :: "nat \<Rightarrow> nat option" where
  "digitValue u =
     (if 48 \<le> u \<and> u \<le> 57 then Some (u - 48)
      else if 97 \<le> u \<and> u \<le> 122 then Some (u - 87)
      else if 65 \<le> u \<and> u \<le> 90 then Some (u - 55)
      else None)"

definition isRadixDigit :: "nat \<Rightarrow> nat \<Rightarrow> bool" where
  "isRadixDigit radix u = (case digitValue u of None \<Rightarrow> False | Some d \<Rightarrow> d < radix)"

definition digitsValue :: "nat \<Rightarrow> js_string \<Rightarrow> int" where
  "digitsValue radix ds =
     foldl (\<lambda>acc u. acc * int radix + (case digitValue u of None \<Rightarrow> 0 | Some d \<Rightarrow> int d)) 0 ds"

fun stripSign :: "js_string \<Rightarrow> int \<times> js_string" where
  "stripSign (u # us) =
     (if u = 0x2D then (- 1, us) else if u = 0x2B then (1, us) else (1, u # us))"
| "stripSign [] = (1, [])"

fun stripPrefix :: "js_string \<Rightarrow> nat \<times> js_string" where
  "stripPrefix (a # b # us) =
     (if a = 0x30 \<and> (b = 0x78 \<or> b = 0x58) then (16, us) else (10, a # b # us))"
| "stripPrefix us = (10, us)"

definition parseInt :: "js_string \<Rightarrow> int option" where
  "parseInt text =
     (let (sign, s) = stripSign (dropWhile isWhiteSpace text);
          (radix, t) = stripPrefix s;
          ds = takeWhile (isRadixDigit radix) t
      in if ds = [] then None else Some (sign * digitsValue radix ds))"

text \<open>
  The number that \<open>parseInt\<close> returns is a double, and the \<open>Decimal\<close> is made from
  it. Up to \<open>2^53\<close> in magnitude the double is the integer that was read. Beyond, the
  double is a rounding of it (or an infinity) and the \<open>Decimal\<close> is made from the decimal
  notation of that double: this conversion is the parameter \<open>big\<close>.
\<close>

definition Decimal_of_Number :: "(int \<Rightarrow> decimal) \<Rightarrow> int \<Rightarrow> decimal" where
  "Decimal_of_Number big n = (if \<bar>n\<bar> \<le> 2 ^ 53 then of_int n else big n)"

text \<open>The three handlers of a stat block: the text input and the two buttons.\<close>

definition oninput :: "(int \<Rightarrow> decimal) \<Rightarrow> js_string \<Rightarrow> Stat \<Rightarrow> Stat" where
  "oninput big text stat =
     (let input = parseInt text
      in stat\<lparr>currentValue :=
           (case input of None \<Rightarrow> 0 | Some n \<Rightarrow> Decimal_of_Number big n)\<rparr>)"

definition onclick_minus :: "Stat \<Rightarrow> Stat" where
  "onclick_minus stat = stat\<lparr>currentValue := currentValue stat - 1\<rparr>"


section \<open>The stat list\<close>

definition crit_rate :: calc where
  "crit_rate s ex inters = Inr ((ex + 50) / 1000)"

definition crit_bonus :: calc where
  "crit_bonus s ex inters = Inr ((ex + 400) / 1000)"

text \<open>
  Expected damage reads \<open>inter.rate\<close> and \<open>inter.bonus\<close>: without intermediates, or
  with one of the two missing, the method call on \<open>undefined\<close> raises.
\<close>

definition edmg :: calc where
  "edmg s e inters =
     (case inters of
        None \<Rightarrow> Inl TypeError
      | Some m \<Rightarrow>
          (case m ''rate'' of
             None \<Rightarrow> Inl TypeError
           | Some rate \<Rightarrow>
               (case m ''bonus'' of
                  None \<Rightarrow> Inl TypeError
                | Some bonus \<Rightarrow> Inr (1 + rate * bonus))))"

definition dh_rate :: calc where
  "dh_rate s ex inters = Inr (ex / 1000)"

definition dh_bonus :: calc where
  "dh_bonus s ex inters = Inr (1 / 4)"

definition mult_calc :: calc where
  "mult_calc s ex inters = Inr ((ex + 1000) / 1000)"

definition tenacity_mit :: calc where
  "tenacity_mit s ex inters = Inr ((1000 - ex) / 1000)"

definition piety_mp :: calc where
  "piety_mp s ex inters = Inr ex"

definition defense_mit :: calc where
  "defense_mit s ex inters = Inr (ex / 100)"

definition stat_CriticalHit :: Stat where
  "stat_CriticalHit = new_Stat ''Critical Hit'' 380 200
     [new_DerivedValue ''rate'' ''Crit Rate'' crit_rate,
      new_DerivedValue ''bonus'' ''Bonus Dmg'' crit_bonus,
      new_NoBreakpointDerivedValue ''edmg'' ''Expected Dmg'' edmg]"

definition stat_DirectHit :: Stat where
  "stat_DirectHit = new_Stat ''Direct Hit'' 380 550
     [new_DerivedValue ''rate'' ''DH Hit'' dh_rate,
      new_NoBreakpointDerivedValue ''bonus'' ''Bonus Dmg'' dh_bonus,
      new_NoBreakpointDerivedValue ''edmg'' ''Expected Dmg'' edmg]"

definition stat_Determination :: Stat where
  "stat_Determination = new_Stat ''Determination'' 340 130
     [new_DerivedValue ''damage mult'' ''Damage Multiplier'' mult_calc]"

definition stat_Speed :: Stat where
  "stat_Speed = new_Stat ''Spell/Skill Speed'' 380 130
     [new_DerivedValue ''mult'' ''DoT Scalar'' mult_calc,
      new_SpeedDerivedValue ''1.5s'' 1500,
      new_SpeedDerivedValue ''2.0s'' 2000,
      new_SpeedDerivedValue ''2.5s'' 2500,
      new_SpeedDerivedValue ''2.8s'' 2800,
      new_SpeedDerivedValue ''3.0s'' 3000,
      new_SpeedDerivedValue ''3.5s'' 3500,
      new_SpeedDerivedValue ''4.0s'' 4000]"

definition stat_Tenacity :: Stat where
  "stat_Tenacity = new_Stat ''Tenacity'' 380 100
     [new_DerivedValue ''mult'' ''Damage Multiplier'' mult_calc,
      new_InvertedDerivedValue ''mit'' ''Mitigation%'' tenacity_mit]"

definition stat_Piety :: Stat where
  "stat_Piety = new_Stat ''Piety'' 340 150
     [isntPercent (new_DerivedValue ''mp'' ''Additional MP per Tick'' piety_mp)]"

definition stat_Defense :: Stat where
  "stat_Defense = new_Stat ''Defense'' 0 15
     [new_DerivedValue ''mit'' ''Mitigation%'' defense_mit]"

definition StatList :: "Stat list" where
  "StatList = [stat_CriticalHit, stat_DirectHit, stat_Determination, stat_Speed,
     stat_Tenacity, stat_Piety, stat_Defense]"

section \<open>The evaluation as the specification words it\<close>

text \<open>
  The mapping from the name of every earlier derived value to its result: the results are
  recorded one after the other, a later result replacing an earlier one of the same name.
\<close>

definition record_results :: "intermediates \<Rightarrow> (string \<times> decimal) list \<Rightarrow> intermediates" where
  "record_results m nys = foldl (\<lambda>m (n, y). m(n \<mapsto> y)) m nys"

definition intermediatesSoFar :: "DerivedValue list \<Rightarrow> decimal list \<Rightarrow> intermediates" where
  "intermediatesSoFar vs ys = record_results Map.empty (zip (map name vs) ys)"

text \<open>
  The plain evaluation of a list of derived values at the current value of the stat, with no
  breakpoint search: each result is computed from the current value, the extra and the
  intermediates so far, and then recorded under the name of its derived value.
\<close>

fun evaluate :: "Stat \<Rightarrow> DerivedValue list \<Rightarrow> intermediates \<Rightarrow> error + decimal list" where
  "evaluate st [] inters = Inr []"
| "evaluate st (v # vs) inters =
     (case calcFn v (currentValue st) (extra st (currentValue st)) (Some inters) of
        Inl e \<Rightarrow> Inl e
      | Inr y \<Rightarrow>
          (case evaluate st vs (inters(name v \<mapsto> y)) of
             Inl e \<Rightarrow> Inl e
           | Inr ys \<Rightarrow> Inr (y # ys)))"

text \<open>The row of a derived value without breakpoints.\<close>

definition plain_row :: "DerivedValue \<Rightarrow> decimal \<Rightarrow> DerivedRow" where
  "plain_row v y =
     \<lparr>row_name = displayName v, row_value = y, row_hasBreakpoints = JSBool False,
      row_isPercent = isPercent v, lesserBreakpoint = None, greaterBreakpoint = None\<rparr>"

section \<open>The method, statement by statement\<close>

text \<open>
  The state a call of \<open>derivedValues\<close> works on: the stat object, and the variables of
  the method and of its callback, which hold whatever was assigned to them last.
\<close>

record frame =
  this_stat :: Stat
  var_intermediates :: intermediates
  var_realValue :: decimal
  var_aboveMinimum :: bool
  var_lesserBreakpoint :: decimal
  var_greaterBreakpoint :: decimal
  var_breaker :: nat

text \<open>
  The two \<open>while\<close> loops, the lesser one when \<open>lesser\<close> holds: each tests the
  recomputed value against \<open>realValue\<close>, then tests and increments \<open>breaker\<close>, and
  moves its breakpoint by the direction of the derived value. An exception ends the loop.
\<close>

definition candidate :: "bool \<Rightarrow> frame \<Rightarrow> decimal" where
  "candidate lesser s = (if lesser then var_lesserBreakpoint s else var_greaterBreakpoint s)"

definition move_candidate :: "bool \<Rightarrow> DerivedValue \<Rightarrow> frame \<Rightarrow> frame" where
  "move_candidate lesser v s =
     (if lesser
      then s\<lparr>var_lesserBreakpoint := var_lesserBreakpoint s + lesserBreakpointDirection v\<rparr>
      else s\<lparr>var_greaterBreakpoint := var_greaterBreakpoint s + greaterBreakpointDirection v\<rparr>)"

definition direction :: "bool \<Rightarrow> DerivedValue \<Rightarrow> decimal" where
  "direction lesser v =
     (if lesser then lesserBreakpointDirection v else greaterBreakpointDirection v)"

definition loop_test :: "bool \<Rightarrow> frame \<Rightarrow> decimal \<Rightarrow> bool" where
  "loop_test lesser s y = (if lesser then js_ge y (var_realValue s) else js_le y (var_realValue s))"

function while_breakpoint :: "bool \<Rightarrow> DerivedValue \<Rightarrow> frame \<Rightarrow> error option \<times> frame" where
  "while_breakpoint lesser v s =
     (case recalc (this_stat s) v (candidate lesser s) of
        Inl e \<Rightarrow> (Some e, s)
      | Inr y \<Rightarrow>
          if loop_test lesser s y
          then (if var_breaker s < 10000
                then while_breakpoint lesser v
                       (move_candidate lesser v (s\<lparr>var_breaker := var_breaker s + 1\<rparr>))
                else (None, s\<lparr>var_breaker := var_breaker s + 1\<rparr>))
          else (None, s))"
  by pat_completeness auto
termination
  by (relation "measure (\<lambda>(lesser, v, s). 10000 - var_breaker s)")
    (auto simp: move_candidate_def)

declare while_breakpoint.simps [simp del]

text \<open>The callback of \<open>map\<close> on one derived value.\<close>

definition callback :: "DerivedValue \<Rightarrow> frame \<Rightarrow> (error + DerivedRow) \<times> frame" where
  "callback v s =
     (case calcFn v (currentValue (this_stat s))
             (extra (this_stat s) (currentValue (this_stat s))) (Some (var_intermediates s)) of
        Inl e \<Rightarrow> (Inl e, s)
      | Inr y \<Rightarrow>
          (let s1 = s\<lparr>var_realValue := y\<rparr>;
               s2 = s1\<lparr>var_intermediates := (var_intermediates s1)(name v \<mapsto> var_realValue s1)\<rparr>;
               s3 = s2\<lparr>var_aboveMinimum := (statBase (this_stat s2) \<le> currentValue (this_stat s2))\<rparr>
           in if truthy (hasBreakpoints v) \<and> var_aboveMinimum s3 then
                (let s4 = s3\<lparr>var_lesserBreakpoint := currentValue (this_stat s3),
                              var_breaker := 0\<rparr>
                 in case while_breakpoint True v s4 of
                      (Some e, s5) \<Rightarrow> (Inl e, s5)
                    | (None, s5) \<Rightarrow>
                        (let s6 = s5\<lparr>var_greaterBreakpoint := currentValue (this_stat s5),
                                      var_breaker := 0\<rparr>
                         in case while_breakpoint False v s6 of
                              (Some e, s7) \<Rightarrow> (Inl e, s7)
                            | (None, s7) \<Rightarrow>
                                (Inr \<lparr>row_name = displayName v, row_value = var_realValue s7,
                                      row_hasBreakpoints = JSBool True,
                                      row_isPercent = isPercent v,
                                      lesserBreakpoint = Some (var_lesserBreakpoint s7),
                                      greaterBreakpoint = Some (var_greaterBreakpoint s7)\<rparr>,
                                 s7)))
              else
                (Inr \<lparr>row_name = displayName v, row_value = var_realValue s3,
                      row_hasBreakpoints = JSBool False, row_isPercent = isPercent v,
                      lesserBreakpoint = None, greaterBreakpoint = None\<rparr>,
                 s3)))"

fun map_callback :: "DerivedValue list \<Rightarrow> frame \<Rightarrow> (error + DerivedRow list) \<times> frame" where
  "map_callback [] s = (Inr [], s)"
| "map_callback (v # vs) s =
     (case callback v s of
        (Inl e, s') \<Rightarrow> (Inl e, s')
      | (Inr row, s') \<Rightarrow>
          (case map_callback vs s' of
             (Inl e, s'') \<Rightarrow> (Inl e, s'')
           | (Inr rows, s'') \<Rightarrow> (Inr (row # rows), s'')))"

text \<open>The method: a new array of intermediates, then the \<open>map\<close>.\<close>

definition derivedValues_exec :: "frame \<Rightarrow> (error + DerivedRow list) \<times> frame" where
  "derivedValues_exec s =
     map_callback (derivedValueDefns (this_stat s)) (s\<lparr>var_intermediates := Map.empty\<rparr>)"

text \<open>A derived value whose callback ignores its third argument.\<close>

definition ignores_intermediates :: "DerivedValue \<Rightarrow> bool" where
  "ignores_intermediates v = (\<forall>s e m m'. calcFn v s e m = calcFn v s e m')"

section \<open>The breakpoint loop\<close>

lemma breakpoint_loop_stop:
  "f bp = Inr y \<Longrightarrow> \<not> (keep y \<and> breaker < 10000) \<Longrightarrow> breakpoint_loop f keep dir bp breaker = Inr bp"
  by (subst breakpoint_loop.simps) auto

lemma breakpoint_loop_step:
  "f bp = Inr y \<Longrightarrow> keep y \<Longrightarrow> breaker < 10000 \<Longrightarrow>
   breakpoint_loop f keep dir bp breaker = breakpoint_loop f keep dir (bp + dir) (breaker + 1)"
  by (subst breakpoint_loop.simps) simp

lemma breakpoint_loop_error:
  "f bp = Inl e \<Longrightarrow> breakpoint_loop f keep dir bp breaker = Inl e"
  by (subst breakpoint_loop.simps) simp

lemma breakpoint_loop_Inr:
  "breakpoint_loop f keep dir bp breaker = Inr r \<Longrightarrow> breaker \<le> 10000 \<Longrightarrow>
   \<exists>k. r = bp + of_nat k * dir \<and> breaker + k \<le> 10000
     \<and> (\<forall>j<k. \<exists>y. f (bp + of_nat j * dir) = Inr y \<and> keep y)
     \<and> (\<exists>y. f r = Inr y \<and> (keep y \<longrightarrow> breaker + k = 10000))"
proof (induction f keep dir bp breaker rule: breakpoint_loop.induct)
  case (1 f keep dir bp breaker)
  show ?case
  proof (cases "f bp")
    case (Inl e)
    with "1.prems" show ?thesis by (simp add: breakpoint_loop_error)
  next
    case (Inr y)
    show ?thesis
    proof (cases "keep y \<and> breaker < 10000")
      case False
      with Inr "1.prems" have "r = bp" by (simp add: breakpoint_loop_stop)
      with Inr False "1.prems"(2) show ?thesis
        by (intro exI [of _ 0]) auto
    next
      case True
      with Inr "1.prems" have res: "breakpoint_loop f keep dir (bp + dir) (breaker + 1) = Inr r"
        by (simp add: breakpoint_loop_step)
      from True have "breaker + 1 \<le> 10000" by simp
      from "1.IH" [OF Inr True res this]
      obtain k where k: "r = bp + dir + of_nat k * dir" "breaker + 1 + k \<le> 10000"
        "\<forall>j<k. \<exists>y. f (bp + dir + of_nat j * dir) = Inr y \<and> keep y"
        "\<exists>y. f r = Inr y \<and> (keep y \<longrightarrow> breaker + 1 + k = 10000)"
        by blast
      have all: "\<forall>j<Suc k. \<exists>y. f (bp + of_nat j * dir) = Inr y \<and> keep y"
      proof (intro allI impI)
        fix j assume j: "j < Suc k"
        show "\<exists>y. f (bp + of_nat j * dir) = Inr y \<and> keep y"
        proof (cases j)
          case 0
          with Inr True show ?thesis by simp
        next
          case (Suc i)
          with j have "i < k" by simp
          with k(3) have "\<exists>y. f (bp + dir + of_nat i * dir) = Inr y \<and> keep y" by blast
          with Suc show ?thesis by (simp add: algebra_simps)
        qed
      qed
      from k(1) have "r = bp + of_nat (Suc k) * dir" by (simp add: algebra_simps)
      moreover from k(2) have "breaker + Suc k \<le> 10000" by simp
      moreover from k(4) have "\<exists>y. f r = Inr y \<and> (keep y \<longrightarrow> breaker + Suc k = 10000)" by simp
      ultimately show ?thesis using all by blast
    qed
  qed
qed

lemma breakpoint_loop_Inl:
  "breakpoint_loop f keep dir bp breaker = Inl e \<Longrightarrow>
   \<exists>k. f (bp + of_nat k * dir) = Inl e \<and> breaker + k \<le> max breaker 10000"
proof (induction f keep dir bp breaker rule: breakpoint_loop.induct)
  case (1 f keep dir bp breaker)
  show ?case
  proof (cases "f bp")
    case (Inl e')
    with "1.prems" have "e' = e" by (simp add: breakpoint_loop_error)
    with Inl show ?thesis by (intro exI [of _ 0]) simp
  next
    case (Inr y)
    show ?thesis
    proof (cases "keep y \<and> breaker < 10000")
      case False
      with Inr "1.prems" show ?thesis by (simp add: breakpoint_loop_stop)
    next
      case True
      with Inr "1.prems" have "breakpoint_loop f keep dir (bp + dir) (breaker + 1) = Inl e"
        by (simp add: breakpoint_loop_step)
      from "1.IH" [OF Inr True this]
      obtain k where "f (bp + dir + of_nat k * dir) = Inl e" "breaker + 1 + k \<le> max (breaker + 1) 10000"
        by blast
      with True have "f (bp + of_nat (Suc k) * dir) = Inl e \<and> breaker + Suc k \<le> max breaker 10000"
        by (simp add: algebra_simps)
      then show ?thesis by blast
    qed
  qed
qed

lemma breakpoint_loop_total:
  assumes "\<And>x. \<exists>y. f x = Inr y"
  shows "\<exists>r. breakpoint_loop f keep dir bp breaker = Inr r"
proof (cases "breakpoint_loop f keep dir bp breaker")
  case (Inl e)
  from breakpoint_loop_Inl [OF this] assms show ?thesis by (metis Inl_Inr_False)
next
  case (Inr r)
  then show ?thesis by blast
qed


lemma breakpoint_loop_run:
  "(\<And>j. j < k \<Longrightarrow> \<exists>y. f (bp + of_nat j * dir) = Inr y \<and> keep y) \<Longrightarrow> breaker + k \<le> 10000 \<Longrightarrow>
   breakpoint_loop f keep dir bp breaker
     = breakpoint_loop f keep dir (bp + of_nat k * dir) (breaker + k)"
proof (induction k arbitrary: bp breaker)
  case 0
  then show ?case by simp
next
  case (Suc k)
  from Suc.prems(1) [of 0] obtain y where y: "f bp = Inr y" "keep y" by auto
  from Suc.prems(2) have lt: "breaker < 10000" by simp
  have "\<And>j. j < k \<Longrightarrow> \<exists>y. f (bp + dir + of_nat j * dir) = Inr y \<and> keep y"
  proof -
    fix j assume "j < k"
    then have "Suc j < Suc k" by simp
    from Suc.prems(1) [OF this] show "\<exists>y. f (bp + dir + of_nat j * dir) = Inr y \<and> keep y"
      by (simp add: algebra_simps)
  qed
  moreover from Suc.prems(2) have "breaker + 1 + k \<le> 10000" by simp
  ultimately have "breakpoint_loop f keep dir (bp + dir) (breaker + 1)
     = breakpoint_loop f keep dir (bp + dir + of_nat k * dir) (breaker + 1 + k)"
    by (rule Suc.IH)
  with y lt show ?case
    by (simp add: breakpoint_loop_step algebra_simps)
qed

lemma breakpoint_loop_found:
  assumes "\<And>j. j < k \<Longrightarrow> \<exists>y. f (bp + of_nat j * dir) = Inr y \<and> keep y"
    and "f (bp + of_nat k * dir) = Inr z" and "\<not> keep z" and "k \<le> 10000"
  shows "breakpoint_loop f keep dir bp 0 = Inr (bp + of_nat k * dir)"
proof -
  from assms(1,4) have "breakpoint_loop f keep dir bp 0
     = breakpoint_loop f keep dir (bp + of_nat k * dir) (0 + k)"
    by (intro breakpoint_loop_run) auto
  with assms(2,3) show ?thesis by (simp add: breakpoint_loop_stop)
qed

lemma breakpoint_loop_cap:
  assumes "\<And>j. j < 10000 \<Longrightarrow> \<exists>y. f (bp + of_nat j * dir) = Inr y \<and> keep y"
    and "f (bp + 10000 * dir) = Inr z"
  shows "breakpoint_loop f keep dir bp 0 = Inr (bp + 10000 * dir)"
proof -
  from assms(1) have "breakpoint_loop f keep dir bp 0
     = breakpoint_loop f keep dir (bp + of_nat 10000 * dir) (0 + 10000)"
    by (intro breakpoint_loop_run) auto
  with assms(2) show ?thesis by (simp add: breakpoint_loop_stop)
qed

section \<open>Rows and intermediates\<close>

lemma derive_row_plain:
  "\<not> (truthy (hasBreakpoints v) \<and> statBase st \<le> currentValue st) \<Longrightarrow>
   derive_row st v y = Inr (plain_row v y)"
  by (auto simp: derive_row_def plain_row_def)

lemma derive_row_searched:
  assumes "truthy (hasBreakpoints v)" and "statBase st \<le> currentValue st"
    and "derive_row st v y = Inr row"
  shows "\<exists>lb gb. lesser_search st v y = Inr lb \<and> greater_search st v y = Inr gb
     \<and> row = \<lparr>row_name = displayName v, row_value = y, row_hasBreakpoints = JSBool True,
              row_isPercent = isPercent v, lesserBreakpoint = Some lb,
              greaterBreakpoint = Some gb\<rparr>"
  using assms by (auto simp: derive_row_def split: sum.splits)

lemma derive_row_fields:
  assumes "derive_row st v y = Inr row"
  shows "row_name row = displayName v" and "row_value row = y"
    and "row_isPercent row = isPercent v"
    and "row_hasBreakpoints row = JSBool True \<or> row_hasBreakpoints row = JSBool False"
  using assms by (auto simp: derive_row_def split: sum.splits if_splits)

lemma search_total:
  assumes "\<And>x. \<exists>y. recalc st v x = Inr y"
  shows "\<exists>lb. lesser_search st v y = Inr lb" and "\<exists>gb. greater_search st v y = Inr gb"
  using assms by (simp_all add: lesser_search_def greater_search_def breakpoint_loop_total)

lemma derive_row_total:
  assumes "truthy (hasBreakpoints v) \<Longrightarrow> statBase st \<le> currentValue st \<Longrightarrow> (\<And>x. \<exists>y. recalc st v x = Inr y)"
  shows "\<exists>row. derive_row st v y = Inr row"
proof (cases "truthy (hasBreakpoints v) \<and> statBase st \<le> currentValue st")
  case False
  then show ?thesis by (simp add: derive_row_plain)
next
  case True
  with assms have tot: "\<And>x. \<exists>y. recalc st v x = Inr y" by blast
  from search_total [of st v y, OF tot] obtain lb gb
    where "lesser_search st v y = Inr lb" "greater_search st v y = Inr gb" by blast
  with True show ?thesis by (simp add: derive_row_def)
qed

lemma record_results_Cons:
  "record_results m ((n, y) # nys) = record_results (m(n \<mapsto> y)) nys"
  by (simp add: record_results_def)

lemma derivedValues_from_length:
  "derivedValues_from st vs m = Inr rows \<Longrightarrow> length rows = length vs"
  by (induction vs arbitrary: m rows) (auto split: sum.splits)

lemma derivedValues_from_evaluate:
  "derivedValues_from st vs m = Inr rows \<Longrightarrow> evaluate st vs m = Inr (map row_value rows)"
proof (induction vs arbitrary: m rows)
  case Nil
  then show ?case by simp
next
  case (Cons v vs)
  then show ?case
    by (auto split: sum.splits dest: derive_row_fields(2))
qed

lemma derivedValues_from_nth:
  "derivedValues_from st vs m = Inr rows \<Longrightarrow> i < length vs \<Longrightarrow>
   calcFn (vs ! i) (currentValue st) (extra st (currentValue st))
       (Some (record_results m (zip (map name (take i vs)) (map row_value (take i rows)))))
     = Inr (row_value (rows ! i))
   \<and> derive_row st (vs ! i) (row_value (rows ! i)) = Inr (rows ! i)"
proof (induction vs arbitrary: m rows i)
  case Nil
  then show ?case by simp
next
  case (Cons v vs)
  from Cons.prems(1) obtain y row rest where
    y: "calcFn v (currentValue st) (extra st (currentValue st)) (Some m) = Inr y"
    and row: "derive_row st v y = Inr row"
    and rest: "derivedValues_from st vs (m(name v \<mapsto> y)) = Inr rest"
    and rows: "rows = row # rest"
    by (auto split: sum.splits)
  from row have val: "row_value row = y" by (rule derive_row_fields(2))
  show ?case
  proof (cases i)
    case 0
    with y row rows val show ?thesis by (simp add: record_results_def)
  next
    case (Suc j)
    with Cons.prems(2) have "j < length vs" by simp
    from Cons.IH [OF rest this] Suc rows val show ?thesis
      by (simp add: record_results_Cons del: fun_upd_apply)
  qed
qed

lemma derivedValues_from_total:
  assumes "evaluate st vs m = Inr ys"
    and "\<And>v x. v \<in> set vs \<Longrightarrow> truthy (hasBreakpoints v) \<Longrightarrow> statBase st \<le> currentValue st
           \<Longrightarrow> \<exists>y. recalc st v x = Inr y"
  shows "\<exists>rows. derivedValues_from st vs m = Inr rows \<and> map row_value rows = ys"
  using assms
proof (induction vs arbitrary: m ys)
  case Nil
  then show ?case by auto
next
  case (Cons v vs)
  from Cons.prems(1) obtain y rest where
    y: "calcFn v (currentValue st) (extra st (currentValue st)) (Some m) = Inr y"
    and rest: "evaluate st vs (m(name v \<mapsto> y)) = Inr rest" and ys: "ys = y # rest"
    by (auto split: sum.splits)
  have "\<exists>row. derive_row st v y = Inr row"
    by (rule derive_row_total) (use Cons.prems(2) [of v] in simp)
  then obtain row where row: "derive_row st v y = Inr row" ..
  have "\<exists>rows. derivedValues_from st vs (m(name v \<mapsto> y)) = Inr rows \<and> map row_value rows = rest"
    by (rule Cons.IH [OF rest]) (use Cons.prems(2) in simp)
  then obtain rows
    where rows: "derivedValues_from st vs (m(name v \<mapsto> y)) = Inr rows" "map row_value rows = rest"
    by blast
  from y row rows ys derive_row_fields(2) [OF row] show ?case
    by (simp del: fun_upd_apply)
qed

lemma derivedValues_from_below:
  assumes "currentValue st < statBase st"
  shows "derivedValues_from st vs m
     = map_sum id (\<lambda>ys. map (\<lambda>(v, y). plain_row v y) (zip vs ys)) (evaluate st vs m)"
proof (induction vs arbitrary: m)
  case Nil
  show ?case by simp
next
  case (Cons v vs)
  from assms have "\<not> (truthy (hasBreakpoints v) \<and> statBase st \<le> currentValue st)" by simp
  then have row: "\<And>y. derive_row st v y = Inr (plain_row v y)" by (rule derive_row_plain)
  show ?case
  proof (cases "calcFn v (currentValue st) (extra st (currentValue st)) (Some m)")
    case (Inl e)
    then show ?thesis by simp
  next
    case (Inr y)
    show ?thesis
    proof (cases "evaluate st vs (m(name v \<mapsto> y))")
      case (Inl e)
      with Inr row Cons.IH [of "m(name v \<mapsto> y)"] show ?thesis
        by (simp del: fun_upd_apply)
    next
      case Inr': (Inr ys)
      with Inr row Cons.IH [of "m(name v \<mapsto> y)"] show ?thesis
        by (simp del: fun_upd_apply)
    qed
  qed
qed

section \<open>Evaluation\<close>

lemma floor_rat_divide_numeral:
  "\<lfloor>numeral a / numeral b :: rat\<rfloor> = numeral a div numeral b"
  by (metis floor_divide_of_int_eq of_int_numeral)

lemma floor_rat_one_divide_numeral:
  "\<lfloor>1 / numeral b :: rat\<rfloor> = 1 div numeral b"
  by (metis floor_divide_of_int_eq of_int_numeral of_int_1)

lemma floor_rat_minus_divide_numeral:
  "\<lfloor>- (numeral a / numeral b) :: rat\<rfloor> = - numeral a div numeral b"
  by (metis divide_minus_left floor_divide_of_int_eq of_int_neg_numeral of_int_numeral)

lemma floor_rat_minus_one_divide_numeral:
  "\<lfloor>- (1 / numeral b) :: rat\<rfloor> = - 1 div numeral b"
  by (metis divide_minus_left floor_divide_of_int_eq of_int_minus of_int_numeral of_int_1)

lemmas floor_rat_eval = floor_rat_divide_numeral floor_rat_one_divide_numeral
  floor_rat_minus_divide_numeral floor_rat_minus_one_divide_numeral

lemma frac_digits_unfold:
  "frac_digits k r =
     (if k = 0 \<or> r = 0 then []
      else (let d = \<lfloor>r * 10\<rfloor> in (48 + nat d) # frac_digits (k - 1) (r * 10 - of_int d)))"
  by (cases k) simp_all

lemmas valueOf_eval = valueOf_def js_ge_def js_le_def frac_digits_unfold show_nat.simps Let_def
  floor_rat_eval

lemmas engine_defs = derivedValues_def derive_row_def extra_def levelMod_def floor_dec_def
  hasBreakpoints_def lesser_search_def greater_search_def recalc_def
  lesserBreakpointDirection_def greaterBreakpointDirection_def breakpoint_loop.simps
  new_Stat_def new_DerivedValue_def new_NoBreakpointDerivedValue_def
  new_InvertedDerivedValue_def new_SpeedDerivedValue_def isntPercent_def

lemmas parseInt_defs = parseInt_def isWhiteSpace_def isRadixDigit_def digitValue_def
  digitsValue_def units_def Decimal_of_Number_def

text \<open>No string is less than itself, so a value compares \<open>>=\<close> and \<open><=\<close> to itself.\<close>

lemma string_less_irrefl: "\<not> string_less xs xs"
  by (induction xs) simp_all

lemma js_ge_refl: "js_ge y y"
  by (simp add: js_ge_def string_less_irrefl)

lemma js_le_refl: "js_le y y"
  by (simp add: js_le_def string_less_irrefl)

section \<open>The extra value\<close>

lemma floor_minus_2_33: "\<lfloor>- (2 / 33) :: rat\<rfloor> = - 1"
  by (simp add: floor_eq_iff)

text \<open>
  Claim C2. For every stat and every decimal candidate value \<open>v\<close>, the extra is
  \<open>floor (deltaRate * (v - baseValue) / 3300)\<close>, where the floor rounds toward negative
  infinity: it is the integer at or below the exact quotient and less than one away from
  it, so one point below the base of Critical Hit gives \<open>-1\<close>, not \<open>0\<close>. At the base
  value itself the extra is \<open>0\<close>.
\<close>

theorem extra_is_floor:
  "extra st v = of_int \<lfloor>deltaRate st * (v - statBase st) / 3300\<rfloor>
   \<and> extra st v \<le> deltaRate st * (v - statBase st) / 3300
   \<and> deltaRate st * (v - statBase st) / 3300 < extra st v + 1
   \<and> extra st (statBase st) = 0
   \<and> extra stat_CriticalHit 379 = - 1"
proof -
  have "extra st v = of_int \<lfloor>deltaRate st * (v - statBase st) / 3300\<rfloor>"
    by (simp add: extra_def levelMod_def floor_dec_def)
  moreover have "extra st (statBase st) = 0"
    by (simp add: extra_def levelMod_def floor_dec_def)
  moreover have "extra stat_CriticalHit 379 = - 1"
    using floor_minus_2_33
    by (simp add: extra_def levelMod_def floor_dec_def stat_CriticalHit_def new_Stat_def)
  ultimately show ?thesis by (simp add: floor_less_cancel) linarith
qed

section \<open>Speed-derived values\<close>

lemma truncate_int_bounds:
  "\<bar>of_int (truncate_int x)\<bar> \<le> \<bar>x\<bar>" "\<bar>x\<bar> - \<bar>of_int (truncate_int x)\<bar> < 1"
  "0 \<le> of_int (truncate_int x) * x"
proof -
  have f: "of_int \<lfloor>x\<rfloor> \<le> x" "x < of_int \<lfloor>x\<rfloor> + 1" by linarith+
  have c: "x \<le> of_int \<lceil>x\<rceil>" "of_int \<lceil>x\<rceil> - 1 < x" by linarith+
  have fp: "0 \<le> x \<Longrightarrow> (0::rat) \<le> of_int \<lfloor>x\<rfloor>" by simp
  have cn: "x < 0 \<Longrightarrow> of_int \<lceil>x\<rceil> \<le> (0::rat)" by (simp add: ceiling_le_zero)
  show "\<bar>of_int (truncate_int x)\<bar> \<le> \<bar>x\<bar>"
    using f c fp cn by (cases "0 \<le> x") (simp_all add: truncate_int_def)
  show "\<bar>x\<bar> - \<bar>of_int (truncate_int x)\<bar> < 1"
    using f c fp cn by (cases "0 \<le> x") (simp_all add: truncate_int_def)
  show "0 \<le> of_int (truncate_int x) * x"
    using fp cn by (cases "0 \<le> x") (simp_all add: truncate_int_def mult_nonpos_nonpos)
qed

lemma toDecimalPlaces_2_bounds:
  fixes y :: decimal
  defines "r \<equiv> toDecimalPlaces_ROUND_DOWN 2 y"
  shows "of_int \<lfloor>r * 100\<rfloor> = r * 100" and "\<bar>r\<bar> \<le> \<bar>y\<bar>" and "\<bar>y\<bar> - \<bar>r\<bar> < 1 / 100"
    and "0 \<le> r * y"
proof -
  have r: "r * 100 = of_int (truncate_int (y * 100))"
    by (simp add: r_def toDecimalPlaces_ROUND_DOWN_def)
  then show "of_int \<lfloor>r * 100\<rfloor> = r * 100" by simp
  from truncate_int_bounds(1) [of "y * 100"] r have "\<bar>r * 100\<bar> \<le> \<bar>y * 100\<bar>" by simp
  then show "\<bar>r\<bar> \<le> \<bar>y\<bar>" by (simp add: abs_mult)
  from truncate_int_bounds(2) [of "y * 100"] r have "\<bar>y * 100\<bar> - \<bar>r * 100\<bar> < 1" by simp
  then show "\<bar>y\<bar> - \<bar>r\<bar> < 1 / 100" by (simp add: abs_mult)
  from truncate_int_bounds(3) [of "y * 100"] r have "0 \<le> (r * 100) * (y * 100)" by simp
  then have "0 \<le> (r * y) * 10000" by (simp add: algebra_simps)
  then show "0 \<le> r * y" by (simp add: zero_le_mult_iff)
qed

text \<open>On a value that is not negative, dropping the digits is rounding down.\<close>

lemma toDecimalPlaces_2_floor:
  "0 \<le> y \<Longrightarrow> toDecimalPlaces_ROUND_DOWN 2 y = of_int \<lfloor>y * 100\<rfloor> / 100"
  by (simp add: toDecimalPlaces_ROUND_DOWN_def truncate_int_def)

lemma speed_recalc_total: "\<exists>y. recalc st (new_SpeedDerivedValue b tc) x = Inr y"
  by (simp add: recalc_def new_SpeedDerivedValue_def new_DerivedValue_def speed_calcFn_def)

lemma mult_recalc:
  "recalc st (new_DerivedValue n d mult_calc) x = Inr ((extra st x + 1000) / 1000)"
  by (simp add: recalc_def new_DerivedValue_def mult_calc_def)

lemma mult_recalc_total: "\<exists>y. recalc st (new_DerivedValue n d mult_calc) x = Inr y"
  by (rule exI) (rule mult_recalc)

lemma evaluate_Speed_380:
  "evaluate (oninput big (units ''380'') stat_Speed) (derivedValueDefns (oninput big (units ''380'') stat_Speed)) Map.empty
     = Inr [1, 3 / 2, 2, 5 / 2, 14 / 5, 3, 7 / 2, 4]"
  by (simp add: stat_Speed_def oninput_def parseInt_defs new_Stat_def new_DerivedValue_def
      new_SpeedDerivedValue_def mult_calc_def speed_calcFn_def extra_def levelMod_def
      floor_dec_def toDecimalPlaces_ROUND_DOWN_def truncate_int_def)

lemma derivedValues_Speed_380:
  "\<exists>rows. derivedValues (oninput big (units ''380'') stat_Speed) = Inr rows
     \<and> map row_value rows = [1, 3 / 2, 2, 5 / 2, 14 / 5, 3, 7 / 2, 4]"
  unfolding derivedValues_def
proof (rule derivedValues_from_total [OF evaluate_Speed_380])
  fix v x
  assume "v \<in> set (derivedValueDefns (oninput big (units ''380'') stat_Speed))"
  then have "(\<exists>n d. v = new_DerivedValue n d mult_calc) \<or> (\<exists>b tc. v = new_SpeedDerivedValue b tc)"
    by (auto simp: stat_Speed_def oninput_def new_Stat_def)
  then show "\<exists>y. recalc (oninput big (units ''380'') stat_Speed) v x = Inr y"
    using speed_recalc_total mult_recalc_total by blast
qed

text \<open>
  Claim C4. For every time constant, the speed-derived value is
  \<open>floor ((1000 - extra) * timeConstant / 1000) / 1000\<close> with the digits after the second
  decimal place dropped: the result is a multiple of \<open>1/100\<close>, has the sign of the
  quotient, is no larger in magnitude and less than \<open>1/100\<close> away from it. The derived
  value is not a percentage and its breakpoint directions are inverted (lesser \<open>+1\<close>,
  greater \<open>-1\<close>). The 2.5s entry of Spell/Skill Speed at the input 380 (the base, so the
  extra is 0) is 2.50.
\<close>

theorem speed_derived_value:
  "(\<exists>r. speed_calcFn timeConstant s e m = Inr r
      \<and> r = toDecimalPlaces_ROUND_DOWN 2 (of_int \<lfloor>(1000 - e) * timeConstant / 1000\<rfloor> / 1000)
      \<and> of_int \<lfloor>r * 100\<rfloor> = r * 100
      \<and> \<bar>r\<bar> \<le> \<bar>of_int \<lfloor>(1000 - e) * timeConstant / 1000\<rfloor> / 1000\<bar>
      \<and> \<bar>of_int \<lfloor>(1000 - e) * timeConstant / 1000\<rfloor> / 1000\<bar> - \<bar>r\<bar> < 1 / 100
      \<and> 0 \<le> r * (of_int \<lfloor>(1000 - e) * timeConstant / 1000\<rfloor> / 1000))
   \<and> calcFn (new_SpeedDerivedValue baseSpeed timeConstant) = speed_calcFn timeConstant
   \<and> isPercent (new_SpeedDerivedValue baseSpeed timeConstant) = False
   \<and> hasBreakpoints (new_SpeedDerivedValue baseSpeed timeConstant) = JSBool True
   \<and> lesserBreakpointDirection (new_SpeedDerivedValue baseSpeed timeConstant) = 1
   \<and> greaterBreakpointDirection (new_SpeedDerivedValue baseSpeed timeConstant) = - 1
   \<and> derivedValueDefns stat_Speed ! 3 = new_SpeedDerivedValue ''2.5s'' 2500
   \<and> extra (oninput big (units ''380'') stat_Speed) 380 = 0
   \<and> (\<exists>rows. derivedValues (oninput big (units ''380'') stat_Speed) = Inr rows
        \<and> row_name (rows ! 3) = ''2.5s'' \<and> row_value (rows ! 3) = 5 / 2)"
proof -
  let ?y = "of_int \<lfloor>(1000 - e) * timeConstant / 1000\<rfloor> / 1000 :: rat"
  have calc: "speed_calcFn timeConstant s e m = Inr (toDecimalPlaces_ROUND_DOWN 2 ?y)"
    by (simp add: speed_calcFn_def floor_dec_def)
  have part1: "\<exists>r. speed_calcFn timeConstant s e m = Inr r
      \<and> r = toDecimalPlaces_ROUND_DOWN 2 ?y
      \<and> of_int \<lfloor>r * 100\<rfloor> = r * 100 \<and> \<bar>r\<bar> \<le> \<bar>?y\<bar> \<and> \<bar>?y\<bar> - \<bar>r\<bar> < 1 / 100 \<and> 0 \<le> r * ?y"
    using calc toDecimalPlaces_2_bounds [of ?y] by blast
  have part2: "calcFn (new_SpeedDerivedValue baseSpeed timeConstant) = speed_calcFn timeConstant"
    "isPercent (new_SpeedDerivedValue baseSpeed timeConstant) = False"
    "hasBreakpoints (new_SpeedDerivedValue baseSpeed timeConstant) = JSBool True"
    "lesserBreakpointDirection (new_SpeedDerivedValue baseSpeed timeConstant) = 1"
    "greaterBreakpointDirection (new_SpeedDerivedValue baseSpeed timeConstant) = - 1"
    by (simp_all add: new_SpeedDerivedValue_def new_DerivedValue_def hasBreakpoints_def
        lesserBreakpointDirection_def greaterBreakpointDirection_def)
  have part3: "derivedValueDefns stat_Speed ! 3 = new_SpeedDerivedValue ''2.5s'' 2500"
    "extra (oninput big (units ''380'') stat_Speed) 380 = 0"
    by (simp_all add: stat_Speed_def new_Stat_def oninput_def extra_def levelMod_def floor_dec_def)
  from derivedValues_Speed_380 [of big] obtain rows
    where rows: "derivedValues (oninput big (units ''380'') stat_Speed) = Inr rows"
      and vals: "map row_value rows = [1, 3 / 2, 2, 5 / 2, 14 / 5, 3, 7 / 2, 4]"
    by (elim exE conjE)
  have "length (map row_value rows) = 8" by (simp only: vals) simp
  then have len: "length rows = 8" by simp
  then have "row_value (rows ! 3) = map row_value rows ! 3" by simp
  also have "\<dots> = 5 / 2" by (simp only: vals) simp
  finally have v3: "row_value (rows ! 3) = 5 / 2" .
  from rows have from_rows: "derivedValues_from (oninput big (units ''380'') stat_Speed)
      (derivedValueDefns (oninput big (units ''380'') stat_Speed)) Map.empty = Inr rows"
    by (simp add: derivedValues_def)
  have defns: "derivedValueDefns (oninput big (units ''380'') stat_Speed) = derivedValueDefns stat_Speed"
    by (simp add: oninput_def)
  have "3 < length (derivedValueDefns (oninput big (units ''380'') stat_Speed))"
    using derivedValues_from_length [OF from_rows] len by simp
  from derivedValues_from_nth [OF from_rows this]
  have "derive_row (oninput big (units ''380'') stat_Speed) (derivedValueDefns stat_Speed ! 3)
      (row_value (rows ! 3)) = Inr (rows ! 3)"
    by (simp only: defns)
  from derive_row_fields(1) [OF this] part3(1)
  have n3: "row_name (rows ! 3) = ''2.5s''"
    by (simp add: new_SpeedDerivedValue_def new_DerivedValue_def)
  from rows v3 n3 have part4: "\<exists>rows. derivedValues (oninput big (units ''380'') stat_Speed) = Inr rows
        \<and> row_name (rows ! 3) = ''2.5s'' \<and> row_value (rows ! 3) = 5 / 2"
    by blast
  from part1 part2 part3 part4 show ?thesis by (intro conjI)
qed

section \<open>Rows with and without breakpoints\<close>

lemma derive_row_hasBreakpoints:
  "derive_row st v y = Inr row \<Longrightarrow>
   row_hasBreakpoints row = JSBool (truthy (hasBreakpoints v) \<and> statBase st \<le> currentValue st)"
  by (auto simp: derive_row_def split: sum.splits if_splits)

lemma derivedValues_DirectHit:
  "derivedValues stat_DirectHit =
     Inr [\<lparr>row_name = ''DH Hit'', row_value = 0,
         row_hasBreakpoints = JSBool True, row_isPercent = True,
         lesserBreakpoint = Some 379, greaterBreakpoint = Some 386\<rparr>,
      \<lparr>row_name = ''Bonus Dmg'', row_value = 1 / 4,
         row_hasBreakpoints = JSBool False, row_isPercent = True,
         lesserBreakpoint = None, greaterBreakpoint = None\<rparr>,
      \<lparr>row_name = ''Expected Dmg'', row_value = 1,
         row_hasBreakpoints = JSBool False, row_isPercent = True,
         lesserBreakpoint = None, greaterBreakpoint = None\<rparr>]"
  by (simp add: stat_DirectHit_def engine_defs dh_rate_def dh_bonus_def edmg_def valueOf_eval)

text \<open>
  Claim C9. Every row returned by \<open>derivedValues\<close> carries a \<open>hasBreakpoints\<close> field
  that is the boolean \<open>true\<close> or the boolean \<open>false\<close>: it is \<open>true\<close> exactly when the
  getter of the derived value is truthy and the current value is at or above the base. The
  getter of a \<open>NoBreakpointDerivedValue\<close> returns \<open>undefined\<close>, and the row of such a
  derived value carries \<open>false\<close>.
\<close>

theorem row_hasBreakpoints_boolean:
  assumes "derivedValues st = Inr rows" and "i < length rows"
  shows "row_hasBreakpoints (rows ! i)
       = JSBool (truthy (hasBreakpoints (derivedValueDefns st ! i)) \<and> statBase st \<le> currentValue st)
     \<and> (row_hasBreakpoints (rows ! i) = JSBool True \<or> row_hasBreakpoints (rows ! i) = JSBool False)
     \<and> hasBreakpoints (new_NoBreakpointDerivedValue n d f) = JSUndefined
     \<and> (class_of (derivedValueDefns st ! i) = ClassNoBreakpointDerivedValue
          \<longrightarrow> row_hasBreakpoints (rows ! i) = JSBool False)"
proof -
  from assms(1) have from_rows:
    "derivedValues_from st (derivedValueDefns st) Map.empty = Inr rows"
    by (simp add: derivedValues_def)
  with assms(2) have "i < length (derivedValueDefns st)"
    by (simp add: derivedValues_from_length)
  from derivedValues_from_nth [OF from_rows this]
  have row: "derive_row st (derivedValueDefns st ! i) (row_value (rows ! i)) = Inr (rows ! i)"
    by simp
  have getter: "hasBreakpoints (new_NoBreakpointDerivedValue n d f) = JSUndefined"
    by (simp add: hasBreakpoints_def new_NoBreakpointDerivedValue_def new_DerivedValue_def)
  have none: "class_of (derivedValueDefns st ! i) = ClassNoBreakpointDerivedValue
      \<Longrightarrow> \<not> truthy (hasBreakpoints (derivedValueDefns st ! i))"
    by (simp add: hasBreakpoints_def)
  from derive_row_hasBreakpoints [OF row] derive_row_fields(4) [OF row] getter none
  show ?thesis by simp
qed

theorem row_hasBreakpoints_boolean_witness:
  "hasBreakpoints (derivedValueDefns stat_DirectHit ! 1) = JSUndefined
   \<and> (\<exists>rows. derivedValues stat_DirectHit = Inr rows \<and> 1 < length rows
        \<and> row_hasBreakpoints (rows ! 0) = JSBool True
        \<and> row_hasBreakpoints (rows ! 1) = JSBool False)"
proof -
  have "hasBreakpoints (derivedValueDefns stat_DirectHit ! 1) = JSUndefined"
    by (simp add: stat_DirectHit_def new_Stat_def hasBreakpoints_def
        new_NoBreakpointDerivedValue_def new_DerivedValue_def)
  moreover have "class_of (derivedValueDefns stat_DirectHit ! 1) = ClassNoBreakpointDerivedValue"
    by (simp add: stat_DirectHit_def new_Stat_def new_NoBreakpointDerivedValue_def
        new_DerivedValue_def)
  moreover note row_hasBreakpoints_boolean [OF derivedValues_DirectHit, of 1]
    derivedValues_DirectHit
  ultimately show ?thesis by simp
qed

text \<open>
  Claim C6. When the current value is strictly below the base value, no breakpoint search
  is made for any derived value: the result is the plain evaluation, each row carrying
  \<open>hasBreakpoints\<close> false and no breakpoint field, and it is returned exactly when every
  plain value can be computed. At the current value equal to the base value the extra is 0.
\<close>

theorem below_base_plain_rows:
  "(currentValue st < statBase st \<longrightarrow>
      derivedValues st
        = map_sum id (\<lambda>ys. map (\<lambda>(v, y). plain_row v y) (zip (derivedValueDefns st) ys))
            (evaluate st (derivedValueDefns st) Map.empty)
      \<and> (\<forall>rows. derivedValues st = Inr rows \<longrightarrow>
            length rows = length (derivedValueDefns st)
            \<and> (\<forall>row \<in> set rows. row_hasBreakpoints row = JSBool False
                  \<and> lesserBreakpoint row = None \<and> greaterBreakpoint row = None)))
   \<and> (currentValue st = statBase st \<longrightarrow> extra st (currentValue st) = 0)"
proof (intro conjI impI allI)
  assume below: "currentValue st < statBase st"
  then show eq: "derivedValues st
        = map_sum id (\<lambda>ys. map (\<lambda>(v, y). plain_row v y) (zip (derivedValueDefns st) ys))
            (evaluate st (derivedValueDefns st) Map.empty)"
    by (simp add: derivedValues_def derivedValues_from_below)
  fix rows assume rows: "derivedValues st = Inr rows"
  then show "length rows = length (derivedValueDefns st)"
    by (simp add: derivedValues_def derivedValues_from_length)
  from rows eq obtain ys where "rows = map (\<lambda>(v, y). plain_row v y) (zip (derivedValueDefns st) ys)"
    by (cases "evaluate st (derivedValueDefns st) Map.empty") auto
  then show "\<forall>row \<in> set rows. row_hasBreakpoints row = JSBool False
                  \<and> lesserBreakpoint row = None \<and> greaterBreakpoint row = None"
    by (auto simp: plain_row_def)
next
  assume "currentValue st = statBase st"
  then show "extra st (currentValue st) = 0"
    by (simp add: extra_def levelMod_def floor_dec_def)
qed

text \<open>
  One point below the base of a Critical Hit stat whose expected damage is declared with
  breakpoints: a search would raise, since expected damage reads the intermediates, and
  none is made.
\<close>

theorem below_base_plain_rows_witness:
  "currentValue (onclick_minus (new_Stat ''Critical Hit'' 380 200
       [new_DerivedValue ''rate'' ''Crit Rate'' crit_rate,
        new_DerivedValue ''bonus'' ''Bonus Dmg'' crit_bonus,
        new_DerivedValue ''edmg'' ''Expected Dmg'' edmg]))
     < statBase (onclick_minus (new_Stat ''Critical Hit'' 380 200
       [new_DerivedValue ''rate'' ''Crit Rate'' crit_rate,
        new_DerivedValue ''bonus'' ''Bonus Dmg'' crit_bonus,
        new_DerivedValue ''edmg'' ''Expected Dmg'' edmg]))
   \<and> derivedValues (onclick_minus (new_Stat ''Critical Hit'' 380 200
       [new_DerivedValue ''rate'' ''Crit Rate'' crit_rate,
        new_DerivedValue ''bonus'' ''Bonus Dmg'' crit_bonus,
        new_DerivedValue ''edmg'' ''Expected Dmg'' edmg]))
     = Inr [\<lparr>row_name = ''Crit Rate'', row_value = 49 / 1000,
              row_hasBreakpoints = JSBool False, row_isPercent = True,
              lesserBreakpoint = None, greaterBreakpoint = None\<rparr>,
            \<lparr>row_name = ''Bonus Dmg'', row_value = 399 / 1000,
              row_hasBreakpoints = JSBool False, row_isPercent = True,
              lesserBreakpoint = None, greaterBreakpoint = None\<rparr>,
            \<lparr>row_name = ''Expected Dmg'', row_value = 1019551 / 1000000,
              row_hasBreakpoints = JSBool False, row_isPercent = True,
              lesserBreakpoint = None, greaterBreakpoint = None\<rparr>]
   \<and> currentValue stat_CriticalHit = statBase stat_CriticalHit
   \<and> extra stat_CriticalHit (currentValue stat_CriticalHit) = 0"
proof -
  let ?st = "onclick_minus (new_Stat ''Critical Hit'' 380 200
       [new_DerivedValue ''rate'' ''Crit Rate'' crit_rate,
        new_DerivedValue ''bonus'' ''Bonus Dmg'' crit_bonus,
        new_DerivedValue ''edmg'' ''Expected Dmg'' edmg])"
  have below: "currentValue ?st < statBase ?st"
    by (simp add: onclick_minus_def new_Stat_def)
  have ev: "evaluate ?st (derivedValueDefns ?st) Map.empty
      = Inr [49 / 1000, 399 / 1000, 1019551 / 1000000]"
    using floor_minus_2_33
    by (simp add: onclick_minus_def new_Stat_def new_DerivedValue_def crit_rate_def
        crit_bonus_def edmg_def extra_def levelMod_def floor_dec_def)
  have base: "currentValue stat_CriticalHit = statBase stat_CriticalHit"
    by (simp add: stat_CriticalHit_def new_Stat_def)
  from below_base_plain_rows [of ?st] below
  have "derivedValues ?st
        = map_sum id (\<lambda>ys. map (\<lambda>(v, y). plain_row v y) (zip (derivedValueDefns ?st) ys))
            (evaluate ?st (derivedValueDefns ?st) Map.empty)"
    by blast
  then have "derivedValues ?st = Inr (map (\<lambda>(v, y). plain_row v y)
      (zip (derivedValueDefns ?st) [49 / 1000, 399 / 1000, 1019551 / 1000000]))"
    by (simp only: ev map_sum.simps)
  then have rows: "derivedValues ?st = Inr [\<lparr>row_name = ''Crit Rate'', row_value = 49 / 1000,
              row_hasBreakpoints = JSBool False, row_isPercent = True,
              lesserBreakpoint = None, greaterBreakpoint = None\<rparr>,
            \<lparr>row_name = ''Bonus Dmg'', row_value = 399 / 1000,
              row_hasBreakpoints = JSBool False, row_isPercent = True,
              lesserBreakpoint = None, greaterBreakpoint = None\<rparr>,
            \<lparr>row_name = ''Expected Dmg'', row_value = 1019551 / 1000000,
              row_hasBreakpoints = JSBool False, row_isPercent = True,
              lesserBreakpoint = None, greaterBreakpoint = None\<rparr>]"
    by (simp add: onclick_minus_def new_Stat_def new_DerivedValue_def plain_row_def)
  from below_base_plain_rows [of stat_CriticalHit] base
  have "extra stat_CriticalHit (currentValue stat_CriticalHit) = 0" by blast
  with below rows base show ?thesis by (intro conjI)
qed

section \<open>The order of evaluation\<close>

lemma record_results_snoc:
  "record_results m (nys @ [(n, y)]) = (record_results m nys)(n \<mapsto> y)"
  by (simp add: record_results_def)

lemma dom_record_results: "dom (record_results m nys) = dom m \<union> fst ` set nys"
  by (induction nys arbitrary: m) (auto simp: record_results_def)

lemma intermediatesSoFar_Suc:
  assumes "i < length vs" and "length ys = length vs"
  shows "intermediatesSoFar (take (Suc i) vs) (take (Suc i) ys)
     = (intermediatesSoFar (take i vs) (take i ys))(name (vs ! i) \<mapsto> ys ! i)"
proof -
  from assms have "zip (map name (take (Suc i) vs)) (take (Suc i) ys)
      = zip (map name (take i vs)) (take i ys) @ [(name (vs ! i), ys ! i)]"
    by (simp add: take_Suc_conv_app_nth)
  then show ?thesis
    by (simp only: intermediatesSoFar_def record_results_snoc)
qed

lemma dom_intermediatesSoFar:
  assumes "length ys = length vs"
  shows "dom (intermediatesSoFar vs ys) = name ` set vs"
proof -
  from assms have "map fst (zip (map name vs) ys) = map name vs" by simp
  then have "fst ` set (zip (map name vs) ys) = name ` set vs"
    by (metis list.set_map)
  then show ?thesis by (simp add: intermediatesSoFar_def dom_record_results)
qed

lemma derivedValues_CriticalHit:
  "derivedValues stat_CriticalHit =
     Inr [\<lparr>row_name = ''Crit Rate'', row_value = 1 / 20,
         row_hasBreakpoints = JSBool True, row_isPercent = True,
         lesserBreakpoint = Some 379, greaterBreakpoint = Some 397\<rparr>,
      \<lparr>row_name = ''Bonus Dmg'', row_value = 2 / 5,
         row_hasBreakpoints = JSBool True, row_isPercent = True,
         lesserBreakpoint = Some 379, greaterBreakpoint = Some 397\<rparr>,
      \<lparr>row_name = ''Expected Dmg'', row_value = 51 / 50,
         row_hasBreakpoints = JSBool False, row_isPercent = True,
         lesserBreakpoint = None, greaterBreakpoint = None\<rparr>]"
  by (simp add: stat_CriticalHit_def engine_defs crit_rate_def crit_bonus_def edmg_def valueOf_eval)

lemma oninput_380_CriticalHit: "oninput big (units ''380'') stat_CriticalHit = stat_CriticalHit"
  by (simp add: oninput_def parseInt_defs stat_CriticalHit_def new_Stat_def)

text \<open>
  Claim C3. The evaluation computes the derived values in their declared order: the
  \<open>i\<close>-th row carries the display name of the \<open>i\<close>-th derived value and the result of
  its \<open>calcFn\<close> on the current value, the extra, and the intermediates so far, which map
  the name of every earlier derived value to its result; each result is recorded under
  the name of its derived value before the next one is computed. For Critical Hit (base
  380, delta rate 200) at the input 380 the extra is 0 and the three results are, in
  order, 0.05, 0.4 and 1.02.
\<close>

theorem evaluation_in_declared_order:
  "(derivedValues st = Inr rows \<longrightarrow>
      length rows = length (derivedValueDefns st)
      \<and> intermediatesSoFar [] [] = Map.empty
      \<and> (\<forall>i<length rows.
            row_name (rows ! i) = displayName (derivedValueDefns st ! i)
            \<and> calcFn (derivedValueDefns st ! i) (currentValue st) (extra st (currentValue st))
                (Some (intermediatesSoFar (take i (derivedValueDefns st))
                         (take i (map row_value rows))))
               = Inr (row_value (rows ! i))
            \<and> dom (intermediatesSoFar (take i (derivedValueDefns st))
                         (take i (map row_value rows)))
               = name ` set (take i (derivedValueDefns st))
            \<and> intermediatesSoFar (take (Suc i) (derivedValueDefns st))
                         (take (Suc i) (map row_value rows))
               = (intermediatesSoFar (take i (derivedValueDefns st))
                         (take i (map row_value rows)))
                    (name (derivedValueDefns st ! i) \<mapsto> row_value (rows ! i))))
   \<and> map name (derivedValueDefns stat_CriticalHit) = [''rate'', ''bonus'', ''edmg'']
   \<and> extra (oninput big (units ''380'') stat_CriticalHit) 380 = 0
   \<and> (\<exists>rows. derivedValues (oninput big (units ''380'') stat_CriticalHit) = Inr rows
         \<and> map row_value rows = [1 / 20, 2 / 5, 51 / 50])"
proof (intro conjI impI allI)
  assume dv: "derivedValues st = Inr rows"
  then have from_rows: "derivedValues_from st (derivedValueDefns st) Map.empty = Inr rows"
    by (simp add: derivedValues_def)
  then show len: "length rows = length (derivedValueDefns st)"
    by (rule derivedValues_from_length)
  fix i assume i: "i < length rows"
  with len have i': "i < length (derivedValueDefns st)" by simp
  note nth = derivedValues_from_nth [OF from_rows i']
  from nth have "derive_row st (derivedValueDefns st ! i) (row_value (rows ! i)) = Inr (rows ! i)"
    by simp
  then show "row_name (rows ! i) = displayName (derivedValueDefns st ! i)"
    by (rule derive_row_fields(1))
  from nth show "calcFn (derivedValueDefns st ! i) (currentValue st) (extra st (currentValue st))
                (Some (intermediatesSoFar (take i (derivedValueDefns st))
                         (take i (map row_value rows))))
               = Inr (row_value (rows ! i))"
    by (simp add: intermediatesSoFar_def take_map)
  from len i show "dom (intermediatesSoFar (take i (derivedValueDefns st))
                         (take i (map row_value rows)))
               = name ` set (take i (derivedValueDefns st))"
    by (intro dom_intermediatesSoFar) simp
  from len i' i
  show "intermediatesSoFar (take (Suc i) (derivedValueDefns st))
                         (take (Suc i) (map row_value rows))
               = (intermediatesSoFar (take i (derivedValueDefns st))
                         (take i (map row_value rows)))
                    (name (derivedValueDefns st ! i) \<mapsto> row_value (rows ! i))"
    using intermediatesSoFar_Suc [of i "derivedValueDefns st" "map row_value rows"] by simp
next
  show "intermediatesSoFar [] [] = Map.empty"
    by (simp add: intermediatesSoFar_def record_results_def)
  show "map name (derivedValueDefns stat_CriticalHit) = [''rate'', ''bonus'', ''edmg'']"
    by (simp add: stat_CriticalHit_def new_Stat_def new_DerivedValue_def
        new_NoBreakpointDerivedValue_def)
  show "extra (oninput big (units ''380'') stat_CriticalHit) 380 = 0"
    by (simp add: oninput_380_CriticalHit)
      (simp add: stat_CriticalHit_def new_Stat_def extra_def levelMod_def floor_dec_def)
  show "\<exists>rows. derivedValues (oninput big (units ''380'') stat_CriticalHit) = Inr rows
         \<and> map row_value rows = [1 / 20, 2 / 5, 51 / 50]"
    by (simp add: oninput_380_CriticalHit derivedValues_CriticalHit)
qed

theorem evaluation_in_declared_order_witness:
  "\<exists>rows. derivedValues stat_CriticalHit = Inr rows \<and> 2 < length rows
     \<and> intermediatesSoFar (take 2 (derivedValueDefns stat_CriticalHit))
          (take 2 (map row_value rows)) = [''rate'' \<mapsto> 1 / 20, ''bonus'' \<mapsto> 2 / 5]
     \<and> calcFn (derivedValueDefns stat_CriticalHit ! 2) 380 0
          (Some [''rate'' \<mapsto> 1 / 20, ''bonus'' \<mapsto> 2 / 5]) = Inr (51 / 50)
     \<and> row_value (rows ! 2) = 51 / 50"
proof -
  let ?rows = "[\<lparr>row_name = ''Crit Rate'', row_value = 1 / 20,
         row_hasBreakpoints = JSBool True, row_isPercent = True,
         lesserBreakpoint = Some 379, greaterBreakpoint = Some 397\<rparr>,
      \<lparr>row_name = ''Bonus Dmg'', row_value = 2 / 5,
         row_hasBreakpoints = JSBool True, row_isPercent = True,
         lesserBreakpoint = Some 379, greaterBreakpoint = Some 397\<rparr>,
      \<lparr>row_name = ''Expected Dmg'', row_value = 51 / 50,
         row_hasBreakpoints = JSBool False, row_isPercent = True,
         lesserBreakpoint = None, greaterBreakpoint = None\<rparr>]"
  have inter: "intermediatesSoFar (take 2 (derivedValueDefns stat_CriticalHit))
          (take 2 (map row_value ?rows)) = [''rate'' \<mapsto> 1 / 20, ''bonus'' \<mapsto> 2 / 5]"
    by (simp add: intermediatesSoFar_def record_results_def stat_CriticalHit_def new_Stat_def
        new_DerivedValue_def new_NoBreakpointDerivedValue_def)
  have cur: "currentValue stat_CriticalHit = 380" "extra stat_CriticalHit 380 = 0"
    by (simp_all add: stat_CriticalHit_def new_Stat_def extra_def levelMod_def floor_dec_def)
  from evaluation_in_declared_order [of stat_CriticalHit ?rows] derivedValues_CriticalHit
  have "\<forall>i<length ?rows.
      calcFn (derivedValueDefns stat_CriticalHit ! i) (currentValue stat_CriticalHit)
          (extra stat_CriticalHit (currentValue stat_CriticalHit))
          (Some (intermediatesSoFar (take i (derivedValueDefns stat_CriticalHit))
                   (take i (map row_value ?rows))))
        = Inr (row_value (?rows ! i))"
    by blast
  from this [rule_format, of 2]
  have "calcFn (derivedValueDefns stat_CriticalHit ! 2) (currentValue stat_CriticalHit)
          (extra stat_CriticalHit (currentValue stat_CriticalHit))
          (Some (intermediatesSoFar (take 2 (derivedValueDefns stat_CriticalHit))
                   (take 2 (map row_value ?rows))))
        = Inr (row_value (?rows ! 2))"
    by simp
  then have "calcFn (derivedValueDefns stat_CriticalHit ! 2) 380 0
          (Some [''rate'' \<mapsto> 1 / 20, ''bonus'' \<mapsto> 2 / 5]) = Inr (51 / 50)"
    by (simp only: inter cur) simp
  with inter derivedValues_CriticalHit show ?thesis
    by (intro exI [of _ ?rows]) simp
qed


section \<open>The bound of the search\<close>

lemma error_is_TypeError: "(e :: error) = TypeError"
  by (cases e) simp

lemma breakpoint_loop_reach:
  "(\<exists>k\<le>10000. breakpoint_loop f keep dir bp 0 = Inr (bp + of_nat k * dir))
   \<or> (\<exists>k\<le>10000. f (bp + of_nat k * dir) = Inl TypeError
         \<and> breakpoint_loop f keep dir bp 0 = Inl TypeError)"
proof (cases "breakpoint_loop f keep dir bp 0")
  case (Inl e)
  from breakpoint_loop_Inl [OF Inl] obtain k
    where "f (bp + of_nat k * dir) = Inl e" "k \<le> 10000" by auto
  with Inl error_is_TypeError [of e] show ?thesis by auto
next
  case (Inr r)
  from breakpoint_loop_Inr [OF Inr] obtain k
    where "r = bp + of_nat k * dir" "k \<le> 10000" by auto
  with Inr show ?thesis by auto
qed

lemma breakpoint_loop_moves:
  assumes "breakpoint_loop f keep dir bp 0 = Inr r" and "f bp = Inr y" and "keep y"
  shows "\<exists>k. 1 \<le> k \<and> k \<le> 10000 \<and> r = bp + of_nat k * dir"
proof -
  from breakpoint_loop_Inr [OF assms(1)] obtain k z
    where k: "r = bp + of_nat k * dir" "k \<le> 10000"
      and z: "f r = Inr z" "keep z \<longrightarrow> k = 10000"
    by auto
  have "k \<noteq> 0"
  proof
    assume "k = 0"
    with k(1) z assms(2,3) show False by simp
  qed
  with k show ?thesis by (intro exI [of _ k]) simp
qed

lemma direction_unit:
  "lesserBreakpointDirection v = 1 \<or> lesserBreakpointDirection v = - 1"
  "greaterBreakpointDirection v = 1 \<or> greaterBreakpointDirection v = - 1"
  by (simp_all add: lesserBreakpointDirection_def greaterBreakpointDirection_def)


text \<open>
  Claim C5. Each of the two searches ends within 10,000 steps, for every derived value,
  every real value and every starting value: it returns a candidate at most 10,000 steps
  from the current value, unless the callback itself raises at a candidate that close.
  When the comparison of the loop (\<open>>=\<close> or \<open><=\<close> on the two \<open>Decimal\<close> objects)
  holds at the first 10,000 candidates, the search returns the candidate 10,000 steps
  away, whatever the comparison says there: an ordinary decimal, so that a search cut off
  by the cap raises nothing and looks like one that stopped by itself.
\<close>

theorem breakpoint_search_capped:
  "((\<exists>k\<le>10000. lesser_search st v realValue
         = Inr (currentValue st + of_nat k * lesserBreakpointDirection v))
     \<or> (\<exists>k\<le>10000. recalc st v (currentValue st + of_nat k * lesserBreakpointDirection v)
           = Inl TypeError \<and> lesser_search st v realValue = Inl TypeError))
   \<and> ((\<exists>k\<le>10000. greater_search st v realValue
         = Inr (currentValue st + of_nat k * greaterBreakpointDirection v))
     \<or> (\<exists>k\<le>10000. recalc st v (currentValue st + of_nat k * greaterBreakpointDirection v)
           = Inl TypeError \<and> greater_search st v realValue = Inl TypeError))
   \<and> ((\<forall>j<10000. \<exists>y. recalc st v (currentValue st + of_nat j * lesserBreakpointDirection v)
           = Inr y \<and> js_ge y realValue)
        \<and> (\<exists>z. recalc st v (currentValue st + 10000 * lesserBreakpointDirection v) = Inr z)
      \<longrightarrow> lesser_search st v realValue
            = Inr (currentValue st + 10000 * lesserBreakpointDirection v))
   \<and> ((\<forall>j<10000. \<exists>y. recalc st v (currentValue st + of_nat j * greaterBreakpointDirection v)
           = Inr y \<and> js_le y realValue)
        \<and> (\<exists>z. recalc st v (currentValue st + 10000 * greaterBreakpointDirection v) = Inr z)
      \<longrightarrow> greater_search st v realValue
            = Inr (currentValue st + 10000 * greaterBreakpointDirection v))"
proof (intro conjI impI)
  show "(\<exists>k\<le>10000. lesser_search st v realValue
         = Inr (currentValue st + of_nat k * lesserBreakpointDirection v))
     \<or> (\<exists>k\<le>10000. recalc st v (currentValue st + of_nat k * lesserBreakpointDirection v)
           = Inl TypeError \<and> lesser_search st v realValue = Inl TypeError)"
    unfolding lesser_search_def by (rule breakpoint_loop_reach)
  show "(\<exists>k\<le>10000. greater_search st v realValue
         = Inr (currentValue st + of_nat k * greaterBreakpointDirection v))
     \<or> (\<exists>k\<le>10000. recalc st v (currentValue st + of_nat k * greaterBreakpointDirection v)
           = Inl TypeError \<and> greater_search st v realValue = Inl TypeError)"
    unfolding greater_search_def by (rule breakpoint_loop_reach)
next
  assume "(\<forall>j<10000. \<exists>y. recalc st v (currentValue st + of_nat j * lesserBreakpointDirection v)
           = Inr y \<and> js_ge y realValue)
        \<and> (\<exists>z. recalc st v (currentValue st + 10000 * lesserBreakpointDirection v) = Inr z)"
  then show "lesser_search st v realValue
            = Inr (currentValue st + 10000 * lesserBreakpointDirection v)"
    unfolding lesser_search_def by (auto intro: breakpoint_loop_cap)
next
  assume "(\<forall>j<10000. \<exists>y. recalc st v (currentValue st + of_nat j * greaterBreakpointDirection v)
           = Inr y \<and> js_le y realValue)
        \<and> (\<exists>z. recalc st v (currentValue st + 10000 * greaterBreakpointDirection v) = Inr z)"
  then show "greater_search st v realValue
            = Inr (currentValue st + 10000 * greaterBreakpointDirection v)"
    unfolding greater_search_def by (auto intro: breakpoint_loop_cap)
qed

text \<open>
  A derived value with breakpoints whose callback is constant, as the fixed bonus of Direct
  Hit is: both searches run into the cap.
\<close>

lemma recalc_constant:
  "recalc st (new_DerivedValue n d dh_bonus) x = Inr (1 / 4)"
  by (simp add: recalc_def new_DerivedValue_def dh_bonus_def)

theorem breakpoint_search_capped_witness:
  "lesser_search (new_Stat ''Direct Hit'' 380 550
        [new_DerivedValue ''bonus'' ''Bonus Dmg'' dh_bonus])
      (new_DerivedValue ''bonus'' ''Bonus Dmg'' dh_bonus) (1 / 4) = Inr (- 9620)
   \<and> greater_search (new_Stat ''Direct Hit'' 380 550
        [new_DerivedValue ''bonus'' ''Bonus Dmg'' dh_bonus])
      (new_DerivedValue ''bonus'' ''Bonus Dmg'' dh_bonus) (1 / 4) = Inr 10380"
proof -
  let ?v = "new_DerivedValue ''bonus'' ''Bonus Dmg'' dh_bonus"
  let ?st = "new_Stat ''Direct Hit'' 380 550 [?v]"
  have cur: "currentValue ?st = 380" by (simp add: new_Stat_def)
  have dir: "lesserBreakpointDirection ?v = - 1" "greaterBreakpointDirection ?v = 1"
    by (simp_all add: lesserBreakpointDirection_def greaterBreakpointDirection_def
        new_DerivedValue_def)
  have l: "(\<forall>j<10000. \<exists>y. recalc ?st ?v (currentValue ?st + of_nat j * lesserBreakpointDirection ?v)
           = Inr y \<and> js_ge y (1 / 4))
        \<and> (\<exists>z. recalc ?st ?v (currentValue ?st + 10000 * lesserBreakpointDirection ?v) = Inr z)"
    by (intro conjI allI impI exI [of _ "1 / 4"]) (simp_all add: recalc_constant js_ge_refl js_le_refl)
  have g: "(\<forall>j<10000. \<exists>y. recalc ?st ?v (currentValue ?st + of_nat j * greaterBreakpointDirection ?v)
           = Inr y \<and> js_le y (1 / 4))
        \<and> (\<exists>z. recalc ?st ?v (currentValue ?st + 10000 * greaterBreakpointDirection ?v) = Inr z)"
    by (intro conjI allI impI exI [of _ "1 / 4"]) (simp_all add: recalc_constant js_ge_refl js_le_refl)
  from breakpoint_search_capped [of ?st ?v "1 / 4"] l g
  have "lesser_search ?st ?v (1 / 4)
            = Inr (currentValue ?st + 10000 * lesserBreakpointDirection ?v)"
    and "greater_search ?st ?v (1 / 4)
            = Inr (currentValue ?st + 10000 * greaterBreakpointDirection ?v)"
    by blast+
  then show ?thesis by (simp add: cur dir)
qed

section \<open>The first step of the search\<close>

lemma derivedValues_row:
  assumes "derivedValues st = Inr rows" and "i < length rows"
  shows "derive_row st (derivedValueDefns st ! i) (row_value (rows ! i)) = Inr (rows ! i)"
    and "calcFn (derivedValueDefns st ! i) (currentValue st) (extra st (currentValue st))
          (Some (intermediatesSoFar (take i (derivedValueDefns st)) (take i (map row_value rows))))
         = Inr (row_value (rows ! i))"
proof -
  from assms(1) have from_rows:
    "derivedValues_from st (derivedValueDefns st) Map.empty = Inr rows"
    by (simp add: derivedValues_def)
  with assms(2) have "i < length (derivedValueDefns st)"
    by (simp add: derivedValues_from_length)
  note nth = derivedValues_from_nth [OF from_rows this]
  from nth show "derive_row st (derivedValueDefns st ! i) (row_value (rows ! i)) = Inr (rows ! i)"
    by simp
  from nth show "calcFn (derivedValueDefns st ! i) (currentValue st) (extra st (currentValue st))
          (Some (intermediatesSoFar (take i (derivedValueDefns st)) (take i (map row_value rows))))
         = Inr (row_value (rows ! i))"
    by (simp add: intermediatesSoFar_def take_map)
qed

lemma derivedValues_searches:
  assumes "derivedValues st = Inr rows" and "i < length rows"
    and "truthy (hasBreakpoints (derivedValueDefns st ! i))"
    and "statBase st \<le> currentValue st"
  shows "\<exists>lb gb. lesserBreakpoint (rows ! i) = Some lb \<and> greaterBreakpoint (rows ! i) = Some gb
     \<and> lesser_search st (derivedValueDefns st ! i) (row_value (rows ! i)) = Inr lb
     \<and> greater_search st (derivedValueDefns st ! i) (row_value (rows ! i)) = Inr gb"
proof -
  from derive_row_searched [OF assms(3,4) derivedValues_row(1) [OF assms(1,2)]]
  obtain lb gb where
    "lesser_search st (derivedValueDefns st ! i) (row_value (rows ! i)) = Inr lb"
    "greater_search st (derivedValueDefns st ! i) (row_value (rows ! i)) = Inr gb"
    "rows ! i = \<lparr>row_name = displayName (derivedValueDefns st ! i),
        row_value = row_value (rows ! i), row_hasBreakpoints = JSBool True,
        row_isPercent = isPercent (derivedValueDefns st ! i), lesserBreakpoint = Some lb,
        greaterBreakpoint = Some gb\<rparr>"
    by blast
  then have "lesserBreakpoint (rows ! i) = Some lb \<and> greaterBreakpoint (rows ! i) = Some gb
     \<and> lesser_search st (derivedValueDefns st ! i) (row_value (rows ! i)) = Inr lb
     \<and> greater_search st (derivedValueDefns st ! i) (row_value (rows ! i)) = Inr gb"
    by (metis DerivedRow.select_convs(5,6))
  then show ?thesis by blast
qed

lemmas StatList_defs = StatList_def stat_CriticalHit_def stat_DirectHit_def
  stat_Determination_def stat_Speed_def stat_Tenacity_def stat_Piety_def stat_Defense_def

lemmas calc_defs = crit_rate_def crit_bonus_def dh_rate_def dh_bonus_def mult_calc_def
  tenacity_mit_def piety_mp_def defense_mit_def speed_calcFn_def

lemma catalog_ignores_intermediates:
  "list_all (\<lambda>st. list_all (\<lambda>v. truthy (hasBreakpoints v) \<longrightarrow> ignores_intermediates v)
      (derivedValueDefns st)) StatList"
  by (simp add: StatList_defs new_Stat_def new_DerivedValue_def new_NoBreakpointDerivedValue_def
      new_InvertedDerivedValue_def new_SpeedDerivedValue_def isntPercent_def
      hasBreakpoints_def ignores_intermediates_def calc_defs)

lemma search_starts_at_real_value:
  assumes "derivedValues st = Inr rows" and "i < length rows"
    and "ignores_intermediates (derivedValueDefns st ! i)"
  shows "recalc st (derivedValueDefns st ! i) (currentValue st) = Inr (row_value (rows ! i))"
  using assms(3) derivedValues_row(2) [OF assms(1,2)]
  unfolding recalc_def ignores_intermediates_def by metis

text \<open>
  Claim C10. For every derived value with breakpoints whose callback ignores the
  intermediates, as every derived value with breakpoints of the shipped stat list does,
  evaluated at a current value at or above the base: the value recomputed at the current
  value is the real value, so the body of each search loop runs at least once, and each
  returned breakpoint lies between 1 and 10,000 steps from the current value in the
  direction of its search.
\<close>

theorem breakpoints_off_current_value:
  "(derivedValues st = Inr rows \<and> i < length rows
      \<and> truthy (hasBreakpoints (derivedValueDefns st ! i))
      \<and> statBase st \<le> currentValue st
      \<and> ignores_intermediates (derivedValueDefns st ! i)
    \<longrightarrow> recalc st (derivedValueDefns st ! i) (currentValue st) = Inr (row_value (rows ! i))
      \<and> (\<exists>k. 1 \<le> k \<and> k \<le> 10000 \<and> lesserBreakpoint (rows ! i)
            = Some (currentValue st
                + of_nat k * lesserBreakpointDirection (derivedValueDefns st ! i)))
      \<and> (\<exists>k. 1 \<le> k \<and> k \<le> 10000 \<and> greaterBreakpoint (rows ! i)
            = Some (currentValue st
                + of_nat k * greaterBreakpointDirection (derivedValueDefns st ! i)))
      \<and> lesserBreakpoint (rows ! i) \<noteq> Some (currentValue st)
      \<and> greaterBreakpoint (rows ! i) \<noteq> Some (currentValue st))
   \<and> list_all (\<lambda>st. list_all (\<lambda>v. truthy (hasBreakpoints v) \<longrightarrow> ignores_intermediates v)
        (derivedValueDefns st)) StatList"
proof (intro conjI impI; (elim conjE)?)
  let ?v = "derivedValueDefns st ! i"
  assume dv: "derivedValues st = Inr rows" and i: "i < length rows"
    and has: "truthy (hasBreakpoints ?v)" and above: "statBase st \<le> currentValue st"
    and ign: "ignores_intermediates ?v"
  from dv i ign
  show start: "recalc st ?v (currentValue st) = Inr (row_value (rows ! i))"
    by (rule search_starts_at_real_value)
  from derivedValues_searches [OF dv i has above] obtain lb gb where
    lb: "lesserBreakpoint (rows ! i) = Some lb"
      "lesser_search st ?v (row_value (rows ! i)) = Inr lb"
    and gb: "greaterBreakpoint (rows ! i) = Some gb"
      "greater_search st ?v (row_value (rows ! i)) = Inr gb"
    by blast
  from breakpoint_loop_moves [OF lb(2) [unfolded lesser_search_def] start js_ge_refl]
  obtain k where k: "1 \<le> k" "k \<le> 10000"
    "lb = currentValue st + of_nat k * lesserBreakpointDirection ?v"
    by auto
  from breakpoint_loop_moves [OF gb(2) [unfolded greater_search_def] start js_le_refl]
  obtain l where l: "1 \<le> l" "l \<le> 10000"
    "gb = currentValue st + of_nat l * greaterBreakpointDirection ?v"
    by auto
  from k lb(1) show "\<exists>k. 1 \<le> k \<and> k \<le> 10000 \<and> lesserBreakpoint (rows ! i)
      = Some (currentValue st + of_nat k * lesserBreakpointDirection ?v)"
    by auto
  from l gb(1) show "\<exists>k. 1 \<le> k \<and> k \<le> 10000 \<and> greaterBreakpoint (rows ! i)
      = Some (currentValue st + of_nat k * greaterBreakpointDirection ?v)"
    by auto
  from k(1,3) lb(1) direction_unit(1) [of ?v]
  show "lesserBreakpoint (rows ! i) \<noteq> Some (currentValue st)" by auto
  from l(1,3) gb(1) direction_unit(2) [of ?v]
  show "greaterBreakpoint (rows ! i) \<noteq> Some (currentValue st)" by auto
next
  show "list_all (\<lambda>st. list_all (\<lambda>v. truthy (hasBreakpoints v) \<longrightarrow> ignores_intermediates v)
        (derivedValueDefns st)) StatList"
    by (rule catalog_ignores_intermediates)
qed

theorem breakpoints_off_current_value_witness:
  "\<exists>rows. derivedValues stat_CriticalHit = Inr rows \<and> 0 < length rows
     \<and> currentValue stat_CriticalHit = 380
     \<and> ignores_intermediates (derivedValueDefns stat_CriticalHit ! 0)
     \<and> recalc stat_CriticalHit (derivedValueDefns stat_CriticalHit ! 0) 380 = Inr (1 / 20)
     \<and> lesserBreakpoint (rows ! 0) = Some 379 \<and> greaterBreakpoint (rows ! 0) = Some 397"
proof -
  let ?rows = "[\<lparr>row_name = ''Crit Rate'', row_value = 1 / 20,
         row_hasBreakpoints = JSBool True, row_isPercent = True,
         lesserBreakpoint = Some 379, greaterBreakpoint = Some 397\<rparr>,
      \<lparr>row_name = ''Bonus Dmg'', row_value = 2 / 5,
         row_hasBreakpoints = JSBool True, row_isPercent = True,
         lesserBreakpoint = Some 379, greaterBreakpoint = Some 397\<rparr>,
      \<lparr>row_name = ''Expected Dmg'', row_value = 51 / 50,
         row_hasBreakpoints = JSBool False, row_isPercent = True,
         lesserBreakpoint = None, greaterBreakpoint = None\<rparr>]"
  have v: "derivedValueDefns stat_CriticalHit ! 0 = new_DerivedValue ''rate'' ''Crit Rate'' crit_rate"
    by (simp add: stat_CriticalHit_def new_Stat_def)
  have has: "truthy (hasBreakpoints (derivedValueDefns stat_CriticalHit ! 0))"
    by (simp add: v hasBreakpoints_def new_DerivedValue_def)
  have ign: "ignores_intermediates (derivedValueDefns stat_CriticalHit ! 0)"
    by (simp add: v ignores_intermediates_def new_DerivedValue_def crit_rate_def)
  have cur: "currentValue stat_CriticalHit = 380" "statBase stat_CriticalHit = 380"
    by (simp_all add: stat_CriticalHit_def new_Stat_def)
  from breakpoints_off_current_value [of stat_CriticalHit ?rows 0]
    derivedValues_CriticalHit has ign cur
  have "recalc stat_CriticalHit (derivedValueDefns stat_CriticalHit ! 0) 380 = Inr (1 / 20)"
    by simp
  with derivedValues_CriticalHit ign cur show ?thesis
    by (intro exI [of _ ?rows]) simp
qed


section \<open>The breakpoints of Piety\<close>

lemma frac_digits_zero: "frac_digits k 0 = []"
  by (cases k) simp_all

lemma valueOf_of_nat: "valueOf (of_nat n) = show_nat n"
  by (simp add: valueOf_def frac_digits_zero)

lemma show_nat_two_digits:
  assumes "10 \<le> n" and "n < 100"
  shows "show_nat n = [48 + n div 10, 48 + n mod 10]"
proof -
  from assms have "n div 10 < 10" by presburger
  then have "show_nat (n div 10) = [48 + n div 10]"
    by (subst show_nat.simps) simp
  with assms(1) show ?thesis
    by (subst show_nat.simps) simp
qed

lemma valueOf_9: "valueOf 9 = [57]"
  by (simp add: valueOf_eval)

lemma js_le_9:
  assumes "9 \<le> n" and "n < 90"
  shows "js_le (of_nat n) 9"
proof (cases "n = 9")
  case True
  then show ?thesis using js_le_refl [of 9] by simp
next
  case False
  with assms have n: "10 \<le> n" "n < 100" by auto
  from assms(2) have d: "n div 10 < 9" by presburger
  from n have "valueOf (of_nat n) = [48 + n div 10, 48 + n mod 10]"
    by (simp only: valueOf_of_nat show_nat_two_digits)
  with d show ?thesis
    by (simp add: js_le_def valueOf_9)
qed

lemma not_js_le_90_9: "\<not> js_le 90 9"
  by (simp add: valueOf_eval)

lemma recalc_Piety:
  "recalc (stat_Piety\<lparr>currentValue := cv\<rparr>) (derivedValueDefns stat_Piety ! 0) x
     = Inr (of_int \<lfloor>(x - 340) / 22\<rfloor>)"
proof -
  have "150 * (x - 340) / 3300 = (x - 340) / 22" by simp
  then show ?thesis
    by (simp add: recalc_def stat_Piety_def new_Stat_def new_DerivedValue_def isntPercent_def
        piety_mp_def extra_def levelMod_def floor_dec_def)
qed

lemma Piety_538_upward:
  assumes "j < 1782"
  shows "\<exists>y. recalc (stat_Piety\<lparr>currentValue := 538\<rparr>) (derivedValueDefns stat_Piety ! 0)
                (538 + of_nat j * 1) = Inr y \<and> js_le y 9"
proof -
  let ?q = "(538 + of_nat j * 1 - 340) / 22 :: rat"
  define n where "n = nat \<lfloor>?q\<rfloor>"
  from assms have "9 \<le> ?q" "?q < 90" by simp_all
  then have b: "9 \<le> \<lfloor>?q\<rfloor>" "\<lfloor>?q\<rfloor> < 90" by (simp_all add: le_floor_iff floor_less_iff)
  have i: "int n = \<lfloor>?q\<rfloor>" "9 \<le> n" "n < 90"
    unfolding n_def using b by linarith+
  have n: "of_int \<lfloor>?q\<rfloor> = (of_nat n :: rat)" "9 \<le> n" "n < 90"
    using i by (simp_all only: i(1) [symmetric] of_int_of_nat_eq)
  from js_le_9 [OF n(2,3)] have "js_le (of_int \<lfloor>?q\<rfloor>) 9" by (simp only: n(1))
  then show ?thesis by (simp only: recalc_Piety) simp
qed

lemma greater_search_Piety_538:
  "greater_search (stat_Piety\<lparr>currentValue := 538\<rparr>) (derivedValueDefns stat_Piety ! 0) 9
     = Inr 2320"
proof -
  let ?st = "stat_Piety\<lparr>currentValue := 538\<rparr>"
  let ?v = "derivedValueDefns stat_Piety ! 0"
  have dir: "greaterBreakpointDirection ?v = 1"
    by (simp add: greaterBreakpointDirection_def stat_Piety_def new_Stat_def
        new_DerivedValue_def isntPercent_def)
  have stop: "recalc ?st ?v (538 + of_nat 1782 * 1) = Inr 90"
    by (simp add: recalc_Piety)
  have "breakpoint_loop (recalc ?st ?v) (\<lambda>y. js_le y 9) 1 538 0 = Inr (538 + of_nat 1782 * 1)"
    by (rule breakpoint_loop_found [where k = 1782 and keep = "\<lambda>y. js_le y 9" and z = 90])
      (simp_all only: Piety_538_upward stop not_js_le_90_9, simp)
  then show ?thesis by (simp add: greater_search_def dir)
qed


lemma oninput_Piety:
  "oninput big (units ''560'') stat_Piety = stat_Piety\<lparr>currentValue := 560\<rparr>"
  "oninput big (units ''538'') stat_Piety = stat_Piety\<lparr>currentValue := 538\<rparr>"
  by (simp_all add: oninput_def parseInt_defs)

lemma derivedValues_Piety_560:
  "derivedValues (stat_Piety\<lparr>currentValue := 560\<rparr>) =
     Inr [\<lparr>row_name = ''Additional MP per Tick'', row_value = 10,
         row_hasBreakpoints = JSBool True, row_isPercent = False,
         lesserBreakpoint = Some 383, greaterBreakpoint = Some 582\<rparr>]"
  by (simp add: stat_Piety_def engine_defs piety_mp_def valueOf_eval)

lemma lesser_search_Piety_538:
  "lesser_search (stat_Piety\<lparr>currentValue := 538\<rparr>) (derivedValueDefns stat_Piety ! 0) 9
     = Inr 537"
  by (simp add: stat_Piety_def engine_defs piety_mp_def valueOf_eval)

lemma derivedValues_Piety_538:
  "derivedValues (stat_Piety\<lparr>currentValue := 538\<rparr>) =
     Inr [\<lparr>row_name = ''Additional MP per Tick'', row_value = 9,
         row_hasBreakpoints = JSBool True, row_isPercent = False,
         lesserBreakpoint = Some 537, greaterBreakpoint = Some 2320\<rparr>]"
proof -
  let ?st = "stat_Piety\<lparr>currentValue := 538\<rparr>"
  let ?v = "derivedValueDefns stat_Piety ! 0"
  have st: "currentValue ?st = 538" "statBase ?st = 340" "derivedValueDefns ?st = [?v]"
    by (simp_all add: stat_Piety_def new_Stat_def)
  have v: "\<And>x e m. calcFn ?v x e m = Inr e" "displayName ?v = ''Additional MP per Tick''"
    "isPercent ?v = False" "truthy (hasBreakpoints ?v)"
    by (simp_all add: stat_Piety_def new_Stat_def new_DerivedValue_def isntPercent_def
        piety_mp_def hasBreakpoints_def)
  have ex: "extra ?st 538 = 9"
    by (simp add: extra_def levelMod_def floor_dec_def stat_Piety_def new_Stat_def floor_rat_eval)
  have "derive_row ?st ?v 9
     = Inr \<lparr>row_name = ''Additional MP per Tick'', row_value = 9,
         row_hasBreakpoints = JSBool True, row_isPercent = False,
         lesserBreakpoint = Some 537, greaterBreakpoint = Some 2320\<rparr>"
    by (simp add: derive_row_def st(1,2) v lesser_search_Piety_538 greater_search_Piety_538)
  then show ?thesis
    by (simp add: derivedValues_def st(1,3) v(1) ex)
qed

text \<open>
  Claim C1 fails on the shipped Piety stat, whose derived value is the extra itself, an
  integer. The loops compare the decimal notations of the values as strings, so \<open>9\<close>
  counts as more than \<open>10\<close> and \<open>10\<close> to \<open>89\<close> as less than \<open>9\<close>. At the input 560
  (real value 10) the lesser search runs past 559, where the value is already 9, down to
  383: one step back, at 384, the value is 2 and not at least 10. At the input 538 (real
  value 9) the greater search runs past 560, where the value is already 10, up to 2320: one
  step back, at 2319, the value is 89 and not at most 9.
\<close>

theorem piety_breakpoints_in_string_order:
  "derivedValues (oninput big (units ''560'') stat_Piety)
     = Inr [\<lparr>row_name = ''Additional MP per Tick'', row_value = 10,
              row_hasBreakpoints = JSBool True, row_isPercent = False,
              lesserBreakpoint = Some 383, greaterBreakpoint = Some 582\<rparr>]
   \<and> recalc (oninput big (units ''560'') stat_Piety) (derivedValueDefns stat_Piety ! 0) 384
       = Inr 2
   \<and> recalc (oninput big (units ''560'') stat_Piety) (derivedValueDefns stat_Piety ! 0) 559
       = Inr 9
   \<and> derivedValues (oninput big (units ''538'') stat_Piety)
     = Inr [\<lparr>row_name = ''Additional MP per Tick'', row_value = 9,
              row_hasBreakpoints = JSBool True, row_isPercent = False,
              lesserBreakpoint = Some 537, greaterBreakpoint = Some 2320\<rparr>]
   \<and> recalc (oninput big (units ''538'') stat_Piety) (derivedValueDefns stat_Piety ! 0) 2319
       = Inr 89
   \<and> recalc (oninput big (units ''538'') stat_Piety) (derivedValueDefns stat_Piety ! 0) 560
       = Inr 10"
  by (simp add: oninput_Piety derivedValues_Piety_560 derivedValues_Piety_538 recalc_Piety
      floor_rat_eval)

section \<open>Calls of the method\<close>

lemma while_breakpoint_error:
  "recalc (this_stat s) v (candidate lesser s) = Inl e \<Longrightarrow>
   while_breakpoint lesser v s = (Some e, s)"
  by (subst while_breakpoint.simps) simp

lemma while_breakpoint_stop:
  "recalc (this_stat s) v (candidate lesser s) = Inr y \<Longrightarrow> \<not> loop_test lesser s y \<Longrightarrow>
   while_breakpoint lesser v s = (None, s)"
  by (subst while_breakpoint.simps) simp

lemma while_breakpoint_cap:
  "recalc (this_stat s) v (candidate lesser s) = Inr y \<Longrightarrow> loop_test lesser s y \<Longrightarrow>
   \<not> var_breaker s < 10000 \<Longrightarrow>
   while_breakpoint lesser v s = (None, s\<lparr>var_breaker := var_breaker s + 1\<rparr>)"
  by (subst while_breakpoint.simps) simp

lemma while_breakpoint_step:
  "recalc (this_stat s) v (candidate lesser s) = Inr y \<Longrightarrow> loop_test lesser s y \<Longrightarrow>
   var_breaker s < 10000 \<Longrightarrow>
   while_breakpoint lesser v s
     = while_breakpoint lesser v (move_candidate lesser v (s\<lparr>var_breaker := var_breaker s + 1\<rparr>))"
  by (subst while_breakpoint.simps) simp

lemma move_candidate_keeps:
  "this_stat (move_candidate lesser v s) = this_stat s"
  "var_realValue (move_candidate lesser v s) = var_realValue s"
  "var_intermediates (move_candidate lesser v s) = var_intermediates s"
  "var_breaker (move_candidate lesser v s) = var_breaker s"
  "candidate lesser (move_candidate lesser v s) = candidate lesser s + direction lesser v"
  "candidate (\<not> lesser) (move_candidate lesser v s) = candidate (\<not> lesser) s"
  "loop_test lesser (move_candidate lesser v s) = loop_test lesser s"
  by (auto simp: move_candidate_def candidate_def direction_def loop_test_def fun_eq_iff)

lemma count_keeps:
  "this_stat (s\<lparr>var_breaker := n\<rparr>) = this_stat s"
  "var_realValue (s\<lparr>var_breaker := n\<rparr>) = var_realValue s"
  "var_intermediates (s\<lparr>var_breaker := n\<rparr>) = var_intermediates s"
  "var_breaker (s\<lparr>var_breaker := n\<rparr>) = n"
  "candidate b (s\<lparr>var_breaker := n\<rparr>) = candidate b s"
  "loop_test lesser (s\<lparr>var_breaker := n\<rparr>) = loop_test lesser s"
  by (simp_all add: candidate_def loop_test_def fun_eq_iff)

lemma while_breakpoint_keeps:
  "this_stat (snd (while_breakpoint lesser v s)) = this_stat s
   \<and> var_realValue (snd (while_breakpoint lesser v s)) = var_realValue s
   \<and> var_intermediates (snd (while_breakpoint lesser v s)) = var_intermediates s
   \<and> candidate (\<not> lesser) (snd (while_breakpoint lesser v s)) = candidate (\<not> lesser) s"
proof (induction lesser v s rule: while_breakpoint.induct)
  case (1 lesser v s)
  show ?case
  proof (cases "recalc (this_stat s) v (candidate lesser s)")
    case (Inl e)
    then show ?thesis by (simp add: while_breakpoint_error)
  next
    case (Inr y)
    show ?thesis
    proof (cases "loop_test lesser s y")
      case False
      with Inr show ?thesis by (simp add: while_breakpoint_stop)
    next
      case True
      show ?thesis
      proof (cases "var_breaker s < 10000")
        case False
        with Inr True show ?thesis by (simp add: while_breakpoint_cap count_keeps)
      next
        case less: True
        from "1.IH" [OF Inr True less] show ?thesis
          by (simp only: while_breakpoint_step [OF Inr True less] move_candidate_keeps
              count_keeps)
      qed
    qed
  qed
qed

lemma while_breakpoint_result:
  "(case while_breakpoint lesser v s of
      (None, s') \<Rightarrow> Inr (candidate lesser s')
    | (Some e, s') \<Rightarrow> Inl e)
   = breakpoint_loop (recalc (this_stat s) v) (loop_test lesser s) (direction lesser v)
       (candidate lesser s) (var_breaker s)"
proof (induction lesser v s rule: while_breakpoint.induct)
  case (1 lesser v s)
  show ?case
  proof (cases "recalc (this_stat s) v (candidate lesser s)")
    case (Inl e)
    then show ?thesis by (simp add: while_breakpoint_error breakpoint_loop_error)
  next
    case (Inr y)
    show ?thesis
    proof (cases "loop_test lesser s y")
      case False
      with Inr show ?thesis
        by (simp add: while_breakpoint_stop breakpoint_loop_stop [where y = y])
    next
      case True
      show ?thesis
      proof (cases "var_breaker s < 10000")
        case False
        with Inr True show ?thesis
          by (simp add: while_breakpoint_cap breakpoint_loop_stop [where y = y] count_keeps)
      next
        case less: True
        let ?s' = "move_candidate lesser v (s\<lparr>var_breaker := var_breaker s + 1\<rparr>)"
        have "(case while_breakpoint lesser v ?s' of
                 (None, s') \<Rightarrow> Inr (candidate lesser s')
               | (Some e, s') \<Rightarrow> Inl e)
           = breakpoint_loop (recalc (this_stat ?s') v) (loop_test lesser ?s')
               (direction lesser v) (candidate lesser ?s') (var_breaker ?s')"
          by (rule "1.IH" [OF Inr True less])
        also have "\<dots> = breakpoint_loop (recalc (this_stat s) v) (loop_test lesser s)
               (direction lesser v) (candidate lesser s + direction lesser v)
               (var_breaker s + 1)"
          by (simp only: move_candidate_keeps count_keeps)
        also have "\<dots> = breakpoint_loop (recalc (this_stat s) v) (loop_test lesser s)
               (direction lesser v) (candidate lesser s) (var_breaker s)"
          using Inr True less
          by (simp only: breakpoint_loop_step
              [where f = "recalc (this_stat s) v" and keep = "loop_test lesser s" and y = y])
        finally show ?thesis
          by (simp only: while_breakpoint_step [OF Inr True less])
      qed
    qed
  qed
qed


lemma lesser_exec:
  assumes "var_lesserBreakpoint s = currentValue (this_stat s)" and "var_breaker s = 0"
    and "while_breakpoint True v s = (r, s')"
  shows "(case r of None \<Rightarrow> Inr (var_lesserBreakpoint s') | Some e \<Rightarrow> Inl e)
         = lesser_search (this_stat s) v (var_realValue s)"
proof -
  have t: "loop_test True s = (\<lambda>y. js_ge y (var_realValue s))"
    by (simp add: loop_test_def fun_eq_iff)
  from while_breakpoint_result [of True v s] assms
  have "(case r of None \<Rightarrow> Inr (candidate True s') | Some e \<Rightarrow> Inl e)
         = lesser_search (this_stat s) v (var_realValue s)"
    by (simp add: lesser_search_def direction_def t candidate_def)
  then show ?thesis by (cases r) (simp_all add: candidate_def)
qed

lemma greater_exec:
  assumes "var_greaterBreakpoint s = currentValue (this_stat s)" and "var_breaker s = 0"
    and "while_breakpoint False v s = (r, s')"
  shows "(case r of None \<Rightarrow> Inr (var_greaterBreakpoint s') | Some e \<Rightarrow> Inl e)
         = greater_search (this_stat s) v (var_realValue s)"
proof -
  have t: "loop_test False s = (\<lambda>y. js_le y (var_realValue s))"
    by (simp add: loop_test_def fun_eq_iff)
  from while_breakpoint_result [of False v s] assms
  have "(case r of None \<Rightarrow> Inr (candidate False s') | Some e \<Rightarrow> Inl e)
         = greater_search (this_stat s) v (var_realValue s)"
    by (simp add: greater_search_def direction_def t candidate_def)
  then show ?thesis by (cases r) (simp_all add: candidate_def)
qed

lemma callback_spec:
  "this_stat (snd (callback v s)) = this_stat s
   \<and> fst (callback v s)
       = (case calcFn v (currentValue (this_stat s))
                 (extra (this_stat s) (currentValue (this_stat s)))
                 (Some (var_intermediates s)) of
            Inl e \<Rightarrow> Inl e
          | Inr y \<Rightarrow> derive_row (this_stat s) v y)
   \<and> (\<forall>row. fst (callback v s) = Inr row \<longrightarrow>
         var_intermediates (snd (callback v s))
           = (var_intermediates s)(name v \<mapsto> row_value row))"
proof (cases "calcFn v (currentValue (this_stat s))
                 (extra (this_stat s) (currentValue (this_stat s)))
                 (Some (var_intermediates s))")
  case (Inl e)
  then show ?thesis by (simp add: callback_def)
next
  case (Inr y)
  let ?st = "this_stat s"
  let ?s3 = "s\<lparr>var_realValue := y,
                var_intermediates := (var_intermediates s)(name v \<mapsto> y),
                var_aboveMinimum := (statBase ?st \<le> currentValue ?st)\<rparr>"
  show ?thesis
  proof (cases "truthy (hasBreakpoints v) \<and> statBase ?st \<le> currentValue ?st")
    case False
    with Inr show ?thesis
      by (auto simp: callback_def Let_def derive_row_def)
  next
    case True
    let ?s4 = "?s3\<lparr>var_lesserBreakpoint := currentValue ?st, var_breaker := 0\<rparr>"
    obtain r1 s5 where w1: "while_breakpoint True v ?s4 = (r1, s5)"
      by (cases "while_breakpoint True v ?s4")
    from while_breakpoint_keeps [of True v ?s4] w1
    have k5: "this_stat s5 = ?st" "var_realValue s5 = y"
      "var_intermediates s5 = (var_intermediates s)(name v \<mapsto> y)"
      by simp_all
    from lesser_exec [of ?s4 v r1 s5] w1
    have l: "(case r1 of None \<Rightarrow> Inr (var_lesserBreakpoint s5) | Some e \<Rightarrow> Inl e)
        = lesser_search ?st v y"
      by simp
    have cb: "callback v s
        = (case while_breakpoint True v ?s4 of
             (Some e, s5) \<Rightarrow> (Inl e, s5)
           | (None, s5) \<Rightarrow>
               (let s6 = s5\<lparr>var_greaterBreakpoint := currentValue (this_stat s5),
                             var_breaker := 0\<rparr>
                in case while_breakpoint False v s6 of
                     (Some e, s7) \<Rightarrow> (Inl e, s7)
                   | (None, s7) \<Rightarrow>
                       (Inr \<lparr>row_name = displayName v, row_value = var_realValue s7,
                             row_hasBreakpoints = JSBool True,
                             row_isPercent = isPercent v,
                             lesserBreakpoint = Some (var_lesserBreakpoint s7),
                             greaterBreakpoint = Some (var_greaterBreakpoint s7)\<rparr>,
                        s7)))"
      using Inr True by (simp add: callback_def Let_def)
    show ?thesis
    proof (cases r1)
      case (Some e)
      with l have "lesser_search ?st v y = Inl e" by simp
      with Some w1 k5 Inr True show ?thesis
        by (simp add: cb derive_row_def)
    next
      case None
      with l have ls: "lesser_search ?st v y = Inr (var_lesserBreakpoint s5)" by simp
      let ?s6 = "s5\<lparr>var_greaterBreakpoint := currentValue ?st, var_breaker := 0\<rparr>"
      obtain r2 s7 where w2: "while_breakpoint False v ?s6 = (r2, s7)"
        by (cases "while_breakpoint False v ?s6")
      from while_breakpoint_keeps [of False v ?s6] w2 k5
      have k7: "this_stat s7 = ?st" "var_realValue s7 = y"
        "var_intermediates s7 = (var_intermediates s)(name v \<mapsto> y)"
        "var_lesserBreakpoint s7 = var_lesserBreakpoint s5"
        by (simp_all add: candidate_def)
      from greater_exec [of ?s6 v r2 s7] w2 k5
      have g: "(case r2 of None \<Rightarrow> Inr (var_greaterBreakpoint s7) | Some e \<Rightarrow> Inl e)
          = greater_search ?st v y"
        by simp
      have cb': "callback v s
          = (case r2 of
               Some e \<Rightarrow> (Inl e, s7)
             | None \<Rightarrow>
                 (Inr \<lparr>row_name = displayName v, row_value = var_realValue s7,
                       row_hasBreakpoints = JSBool True, row_isPercent = isPercent v,
                       lesserBreakpoint = Some (var_lesserBreakpoint s7),
                       greaterBreakpoint = Some (var_greaterBreakpoint s7)\<rparr>,
                  s7))"
        using None w1 w2 k5 by (simp add: cb Let_def split: option.splits)
      show ?thesis
      proof (cases r2)
        case (Some e)
        with g have "greater_search ?st v y = Inl e" by simp
        with Some ls k7 Inr True show ?thesis
          by (simp add: cb' derive_row_def)
      next
        case None
        with g have "greater_search ?st v y = Inr (var_greaterBreakpoint s7)" by simp
        with None ls k7 Inr True show ?thesis
          by (simp add: cb' derive_row_def)
      qed
    qed
  qed
qed

lemma map_callback_spec:
  "this_stat (snd (map_callback vs s)) = this_stat s
   \<and> fst (map_callback vs s) = derivedValues_from (this_stat s) vs (var_intermediates s)"
proof (induction vs arbitrary: s)
  case Nil
  show ?case by simp
next
  case (Cons v vs)
  obtain r s' where cb: "callback v s = (r, s')" by (cases "callback v s")
  note spec = callback_spec [of v s]
  show ?case
  proof (cases "calcFn v (currentValue (this_stat s))
                 (extra (this_stat s) (currentValue (this_stat s)))
                 (Some (var_intermediates s))")
    case (Inl e)
    with spec cb show ?thesis by simp
  next
    case (Inr y)
    show ?thesis
    proof (cases r)
      case Inl': (Inl e)
      with spec cb Inr have "derive_row (this_stat s) v y = Inl e" "this_stat s' = this_stat s"
        by simp_all
      with cb Inl' Inr show ?thesis by simp
    next
      case Inr': (Inr row)
      with spec cb Inr have row: "derive_row (this_stat s) v y = Inr row"
        and st: "this_stat s' = this_stat s"
        and im: "var_intermediates s' = (var_intermediates s)(name v \<mapsto> row_value row)"
        by simp_all
      from row have y: "row_value row = y" by (rule derive_row_fields(2))
      obtain rs s'' where mc: "map_callback vs s' = (rs, s'')" by (cases "map_callback vs s'")
      from Cons.IH [of s'] mc st im y
      have st'': "this_stat s'' = this_stat s"
        and dv: "derivedValues_from (this_stat s) vs ((var_intermediates s)(name v \<mapsto> y)) = rs"
        by (simp_all del: fun_upd_apply)
      show ?thesis
      proof (cases rs)
        case (Inl e)
        with cb Inr' mc Inr row dv st'' show ?thesis by (simp del: fun_upd_apply)
      next
        case (Inr rows)
        with cb Inr' mc \<open>calcFn v _ _ _ = Inr y\<close> row dv st'' show ?thesis
          by (simp del: fun_upd_apply)
      qed
    qed
  qed
qed


lemma derivedValues_exec_spec:
  "this_stat (snd (derivedValues_exec s)) = this_stat s"
  "fst (derivedValues_exec s) = derivedValues (this_stat s)"
  using map_callback_spec [of "derivedValueDefns (this_stat s)" "s\<lparr>var_intermediates := Map.empty\<rparr>"]
  by (simp_all add: derivedValues_exec_def derivedValues_def)

text \<open>
  Claim C7. Calling the full evaluation twice, with nothing changing the stat in between,
  gives the same output both times. A call assigns to its own variables only and leaves
  the stat object as it found it; its output is that of the stat object alone, whatever
  the variables held before the call, since the intermediates are created anew and each
  breakpoint and the counter are assigned before their loop.
\<close>

theorem derivedValues_idempotent:
  "(case derivedValues_exec s of
      (out1, s1) \<Rightarrow>
        (case derivedValues_exec s1 of
           (out2, s2) \<Rightarrow> out1 = out2 \<and> this_stat s1 = this_stat s \<and> this_stat s2 = this_stat s))
   \<and> fst (derivedValues_exec s) = derivedValues (this_stat s)"
proof -
  obtain out1 s1 where c1: "derivedValues_exec s = (out1, s1)"
    by (cases "derivedValues_exec s")
  obtain out2 s2 where c2: "derivedValues_exec s1 = (out2, s2)"
    by (cases "derivedValues_exec s1")
  from derivedValues_exec_spec [of s] c1
  have a: "this_stat s1 = this_stat s" "out1 = derivedValues (this_stat s)" by simp_all
  from derivedValues_exec_spec [of s1] c2
  have b: "this_stat s2 = this_stat s1" "out2 = derivedValues (this_stat s1)" by simp_all
  from a b c1 c2 show ?thesis by simp
qed

text \<open>
  The variables do change: a call on the Critical Hit stat leaves the three intermediates,
  the breakpoints of the bonus and the count of its last loop behind, and a second call
  starting from them returns the same rows.
\<close>

lemmas exec_defs = derivedValues_exec_def callback_def while_breakpoint.simps candidate_def
  move_candidate_def loop_test_def

theorem derivedValues_idempotent_witness:
  "snd (derivedValues_exec
      \<lparr>this_stat = stat_CriticalHit, var_intermediates = Map.empty, var_realValue = 0,
       var_aboveMinimum = False, var_lesserBreakpoint = 0, var_greaterBreakpoint = 0,
       var_breaker = 0\<rparr>)
     = \<lparr>this_stat = stat_CriticalHit,
        var_intermediates = [''rate'' \<mapsto> 1 / 20, ''bonus'' \<mapsto> 2 / 5, ''edmg'' \<mapsto> 51 / 50],
        var_realValue = 51 / 50, var_aboveMinimum = True, var_lesserBreakpoint = 379,
        var_greaterBreakpoint = 397, var_breaker = 17\<rparr>
   \<and> fst (derivedValues_exec
      \<lparr>this_stat = stat_CriticalHit,
        var_intermediates = [''rate'' \<mapsto> 1 / 20, ''bonus'' \<mapsto> 2 / 5, ''edmg'' \<mapsto> 51 / 50],
        var_realValue = 51 / 50, var_aboveMinimum = True, var_lesserBreakpoint = 379,
        var_greaterBreakpoint = 397, var_breaker = 17\<rparr>)
     = fst (derivedValues_exec
      \<lparr>this_stat = stat_CriticalHit, var_intermediates = Map.empty, var_realValue = 0,
       var_aboveMinimum = False, var_lesserBreakpoint = 0, var_greaterBreakpoint = 0,
       var_breaker = 0\<rparr>)"
proof -
  let ?s = "\<lparr>this_stat = stat_CriticalHit, var_intermediates = Map.empty, var_realValue = 0,
       var_aboveMinimum = False, var_lesserBreakpoint = 0, var_greaterBreakpoint = 0,
       var_breaker = 0\<rparr>"
  let ?s1 = "\<lparr>this_stat = stat_CriticalHit,
        var_intermediates = [''rate'' \<mapsto> 1 / 20, ''bonus'' \<mapsto> 2 / 5, ''edmg'' \<mapsto> 51 / 50],
        var_realValue = 51 / 50, var_aboveMinimum = True, var_lesserBreakpoint = 379,
        var_greaterBreakpoint = 397, var_breaker = 17\<rparr>"
  have s1: "snd (derivedValues_exec ?s) = ?s1"
    by (simp add: exec_defs stat_CriticalHit_def engine_defs crit_rate_def crit_bonus_def
        edmg_def valueOf_eval)
  obtain out1 where c1: "derivedValues_exec ?s = (out1, ?s1)"
    using s1 by (cases "derivedValues_exec ?s") simp
  obtain out2 s2 where c2: "derivedValues_exec ?s1 = (out2, s2)"
    by (cases "derivedValues_exec ?s1")
  from derivedValues_idempotent [of ?s] c1 c2 have "out1 = out2" by simp
  with s1 c1 c2 show ?thesis by simp
qed

section \<open>The events of the stat block\<close>




lemma digit_10_16: "isRadixDigit 10 u \<Longrightarrow> isRadixDigit 16 u"
  by (auto simp: isRadixDigit_def split: option.splits)











end
